theory Spec2Isabelle
  imports Complex_Main "HOL-Library.AList" "HOL-Library.Log_Nat"
begin

section \<open>Values, exceptions and the transport\<close>

text \<open>
  The snapshot \<open>self.data\<close> is whatever \<open>json.loads\<close> returned: \<open>None\<close>, a bool, an int,
  a float, a str, a list or a dict. A dict is an association list in insertion order;
  \<open>map_of\<close> reads it and \<open>AList.update\<close> stores into it (in place when the key is there,
  at the end otherwise), as a Python dict does. A finite float is the rational it denotes.
\<close>

datatype pyfloat = Finite rat | PosInf | NegInf | NaN

datatype json =
    JNull
  | JBool bool
  | JInt int
  | JFloat pyfloat
  | JStr string
  | JList "json list"
  | JObj "(string \<times> json) list"

datatype exn =
    KeyError
  | TypeError
  | ValueError
  | OverflowError
  | HTTPStatusError

text \<open>\<open>obj[key]\<close> with a str key: only a dict can be read that way.\<close>

fun subscript :: "json \<Rightarrow> string \<Rightarrow> exn + json" where
  "subscript (JObj kvs) k = (case map_of kvs k of None \<Rightarrow> Inl KeyError | Some v \<Rightarrow> Inr v)"
| "subscript _ k = Inl TypeError"

text \<open>\<open>obj[key] = value\<close> with a str key.\<close>

fun store :: "json \<Rightarrow> string \<Rightarrow> json \<Rightarrow> exn + json" where
  "store (JObj kvs) k v = Inr (JObj (AList.update k v kvs))"
| "store _ k v = Inl TypeError"

text \<open>\<open>"literal" + x\<close>: concatenation needs a str on the right.\<close>

fun concat_str :: "string \<Rightarrow> json \<Rightarrow> exn + string" where
  "concat_str a (JStr b) = Inr (a @ b)"
| "concat_str a _ = Inl TypeError"

datatype http_method = GET | POST | PUT | PATCH | DELETE

record request =
  http_method :: http_method
  path :: string
  payload :: "json option"

record response =
  status_code :: int
  content :: string

text \<open>
  The client and \<open>json.loads\<close> are collaborators outside the repository. The server is a
  function from the requests issued so far (the last one being the current request) to the
  response; \<open>json_loads\<close> stands for \<open>json.loads(content.decode("UTF-8"))\<close> and may raise.
\<close>

record env =
  server :: "request list \<Rightarrow> response"
  json_loads :: "string \<Rightarrow> exn + json"

text \<open>
  A proxy: the snapshot \<open>self.data\<close> and the history of \<open>self.client\<close>, every request
  issued through it with the response it got.
\<close>

record device =
  data :: json
  client :: "(request \<times> response) list"

definition api_call :: "env \<Rightarrow> http_method \<Rightarrow> string \<Rightarrow> json option \<Rightarrow> device \<Rightarrow> response \<times> device" where
  "api_call E m p b s =
     (let rq = \<lparr>http_method = m, path = p, payload = b\<rparr>;
          rs = server E (map fst (client s) @ [rq])
      in (rs, s\<lparr>client := client s @ [(rq, rs)]\<rparr>))"

text \<open>
  Modelled from the spec: \<open>raise_for_status\<close> belongs to the response object of the
  transport, which is not part of the sources. The spec has it raise the remote error
  whenever the status falls outside the success range 2xx.
\<close>

definition is_success :: "response \<Rightarrow> bool" where
  "is_success r \<longleftrightarrow> 200 \<le> status_code r \<and> status_code r < 300"

definition raise_for_status :: "response \<Rightarrow> exn + unit" where
  "raise_for_status r = (if is_success r then Inr () else Inl HTTPStatusError)"

section \<open>DeviceSmartFeed\<close>

definition api_name :: "device \<Rightarrow> exn + json" where
  "api_name s = subscript (data s) ''thing_name''"

definition api_path :: "device \<Rightarrow> exn + string" where
  "api_path s =
     (case api_name s of Inl e \<Rightarrow> Inl e
      | Inr n \<Rightarrow>
        (case concat_str ''smart-feed/feeders/'' n of Inl e \<Rightarrow> Inl e
         | Inr p \<Rightarrow> Inr (p @ ''/'')))"

definition update_data :: "env \<Rightarrow> device \<Rightarrow> (exn + json) \<times> device" where
  "update_data E s =
     (case api_path s of Inl e \<Rightarrow> (Inl e, s)
      | Inr p \<Rightarrow>
        (case api_call E GET p None s of (response, s1) \<Rightarrow>
          (case raise_for_status response of Inl e \<Rightarrow> (Inl e, s1)
           | Inr _ \<Rightarrow>
             (case json_loads E (content response) of Inl e \<Rightarrow> (Inl e, s1)
              | Inr d \<Rightarrow> (Inr JNull, s1\<lparr>data := d\<rparr>)))))"

text \<open>\<open>self.data["settings"][setting] = value\<close>: the inner dict is changed in place.\<close>

definition store_setting :: "string \<Rightarrow> json \<Rightarrow> device \<Rightarrow> (exn + json) \<times> device" where
  "store_setting setting v s =
     (case subscript (data s) ''settings'' of Inl e \<Rightarrow> (Inl e, s)
      | Inr settings \<Rightarrow>
        (case store settings setting v of Inl e \<Rightarrow> (Inl e, s)
         | Inr settings' \<Rightarrow>
           (case store (data s) ''settings'' settings' of Inl e \<Rightarrow> (Inl e, s)
            | Inr d \<Rightarrow> (Inr JNull, s\<lparr>data := d\<rparr>))))"

definition put_setting :: "env \<Rightarrow> string \<Rightarrow> json \<Rightarrow> bool \<Rightarrow> device \<Rightarrow> (exn + json) \<times> device" where
  "put_setting E setting v force_update s =
     (case api_path s of Inl e \<Rightarrow> (Inl e, s)
      | Inr p \<Rightarrow>
        (case api_call E PUT (p @ ''settings/'' @ setting) (Some (JObj [(''value'', v)])) s of
           (response, s1) \<Rightarrow>
          (case raise_for_status response of Inl e \<Rightarrow> (Inl e, s1)
           | Inr _ \<Rightarrow>
             if force_update then update_data E s1 else store_setting setting v s1)))"

text \<open>\<open>str(days)\<close> for an int: the decimal numeral, with a minus sign below zero.\<close>

fun digits :: "nat \<Rightarrow> string" where
  "digits n = (if n < 10 then [char_of (48 + n)] else digits (n div 10) @ [char_of (48 + n mod 10)])"

definition str_int :: "int \<Rightarrow> string" where
  "str_int i = (if i < 0 then CHR ''-'' # digits (nat (- i)) else digits (nat i))"

definition get_messages_since :: "env \<Rightarrow> int \<Rightarrow> device \<Rightarrow> (exn + json) \<times> device" where
  "get_messages_since E days s =
     (case api_path s of Inl e \<Rightarrow> (Inl e, s)
      | Inr p \<Rightarrow>
        (case api_call E GET (p @ ''messages?days='' @ str_int days) None s of (response, s1) \<Rightarrow>
          (case raise_for_status response of Inl e \<Rightarrow> (Inl e, s1)
           | Inr _ \<Rightarrow> (json_loads E (content response), s1))))"

text \<open>
  \<open>for message in messages\<close>: a list yields its items, a dict its keys, a str its
  characters; nothing else can be iterated.
\<close>

fun iterate :: "json \<Rightarrow> exn + json list" where
  "iterate (JList xs) = Inr xs"
| "iterate (JObj kvs) = Inr (map (\<lambda>kv. JStr (fst kv)) kvs)"
| "iterate (JStr cs) = Inr (map (\<lambda>c. JStr [c]) cs)"
| "iterate _ = Inl TypeError"

text \<open>The loop of \<open>get_last_feeding\<close>: the first message of type FEED_DONE, else \<open>None\<close>.\<close>

fun first_feed_done :: "json list \<Rightarrow> exn + json" where
  "first_feed_done [] = Inr JNull"
| "first_feed_done (message # rest) =
     (case subscript message ''message_type'' of Inl e \<Rightarrow> Inl e
      | Inr t \<Rightarrow> if t = JStr ''FEED_DONE'' then Inr message else first_feed_done rest)"

definition get_last_feeding :: "env \<Rightarrow> device \<Rightarrow> (exn + json) \<times> device" where
  "get_last_feeding E s =
     (case get_messages_since E 7 s of
        (Inl e, s1) \<Rightarrow> (Inl e, s1)
      | (Inr messages, s1) \<Rightarrow>
        (case iterate messages of Inl e \<Rightarrow> (Inl e, s1)
         | Inr ms \<Rightarrow> (first_feed_done ms, s1)))"

text \<open>
  \<open>feed(amount, slow_feed, update_data)\<close>. The caller's \<open>None\<close> for \<open>slow_feed\<close> is
  \<open>JNull\<close>; the setting is read from the snapshot before the path is built.
\<close>

definition feed :: "env \<Rightarrow> json \<Rightarrow> json \<Rightarrow> bool \<Rightarrow> device \<Rightarrow> (exn + json) \<times> device" where
  "feed E amount slow_feed upd s =
     (case (if slow_feed = JNull
            then (case subscript (data s) ''settings'' of Inl e \<Rightarrow> Inl e
                  | Inr settings \<Rightarrow> subscript settings ''slow_feed'')
            else Inr slow_feed) of
        Inl e \<Rightarrow> (Inl e, s)
      | Inr slow \<Rightarrow>
        (case api_path s of Inl e \<Rightarrow> (Inl e, s)
         | Inr p \<Rightarrow>
           (case api_call E POST (p @ ''meals'')
                   (Some (JObj [(''amount'', amount), (''slow_feed'', slow)])) s of
              (response, s1) \<Rightarrow>
             (case raise_for_status response of Inl e \<Rightarrow> (Inl e, s1)
              | Inr _ \<Rightarrow> if upd then update_data E s1 else (Inr JNull, s1)))))"

definition repeat_feed :: "env \<Rightarrow> device \<Rightarrow> (exn + json) \<times> device" where
  "repeat_feed E s =
     (case get_last_feeding E s of
        (Inl e, s1) \<Rightarrow> (Inl e, s1)
      | (Inr last_feeding, s1) \<Rightarrow>
        (case subscript last_feeding ''amount'' of Inl e \<Rightarrow> (Inl e, s1)
         | Inr amount \<Rightarrow> feed E amount JNull True s1))"

definition prime :: "env \<Rightarrow> device \<Rightarrow> (exn + json) \<times> device" where
  "prime E s = feed E (JInt 5) (JBool False) True s"

definition get_schedules :: "env \<Rightarrow> device \<Rightarrow> (exn + json) \<times> device" where
  "get_schedules E s =
     (case api_path s of Inl e \<Rightarrow> (Inl e, s)
      | Inr p \<Rightarrow>
        (case api_call E GET (p @ ''schedules'') None s of (response, s1) \<Rightarrow>
          (case raise_for_status response of Inl e \<Rightarrow> (Inl e, s1)
           | Inr _ \<Rightarrow> (json_loads E (content response), s1))))"

definition schedule_feed :: "env \<Rightarrow> json \<Rightarrow> json \<Rightarrow> bool \<Rightarrow> device \<Rightarrow> (exn + json) \<times> device" where
  "schedule_feed E time amount upd s =
     (case api_path s of Inl e \<Rightarrow> (Inl e, s)
      | Inr p \<Rightarrow>
        (case api_call E POST (p @ ''schedules'')
                (Some (JObj [(''time'', time), (''amount'', amount)])) s of
           (response, s1) \<Rightarrow>
          (case raise_for_status response of Inl e \<Rightarrow> (Inl e, s1)
           | Inr _ \<Rightarrow>
             (case (if upd then update_data E s1 else (Inr JNull, s1)) of
                (Inl e, s2) \<Rightarrow> (Inl e, s2)
              | (Inr _, s2) \<Rightarrow> (json_loads E (content response), s2)))))"

definition modify_schedule ::
  "env \<Rightarrow> json \<Rightarrow> json \<Rightarrow> string \<Rightarrow> bool \<Rightarrow> device \<Rightarrow> (exn + json) \<times> device" where
  "modify_schedule E time amount schedule_id upd s =
     (case api_path s of Inl e \<Rightarrow> (Inl e, s)
      | Inr p \<Rightarrow>
        (case api_call E PUT (p @ ''schedules/'' @ schedule_id)
                (Some (JObj [(''time'', time), (''amount'', amount)])) s of
           (response, s1) \<Rightarrow>
          (case raise_for_status response of Inl e \<Rightarrow> (Inl e, s1)
           | Inr _ \<Rightarrow> if upd then update_data E s1 else (Inr JNull, s1))))"

definition delete_schedule :: "env \<Rightarrow> string \<Rightarrow> bool \<Rightarrow> device \<Rightarrow> (exn + json) \<times> device" where
  "delete_schedule E schedule_id upd s =
     (case api_path s of Inl e \<Rightarrow> (Inl e, s)
      | Inr p \<Rightarrow>
        (case api_call E DELETE (p @ ''schedules/'' @ schedule_id) None s of (response, s1) \<Rightarrow>
          (case raise_for_status response of Inl e \<Rightarrow> (Inl e, s1)
           | Inr _ \<Rightarrow> if upd then update_data E s1 else (Inr JNull, s1))))"

definition delete_all_schedules :: "env \<Rightarrow> bool \<Rightarrow> device \<Rightarrow> (exn + json) \<times> device" where
  "delete_all_schedules E upd s =
     (case api_path s of Inl e \<Rightarrow> (Inl e, s)
      | Inr p \<Rightarrow>
        (case api_call E DELETE (p @ ''schedules'') None s of (response, s1) \<Rightarrow>
          (case raise_for_status response of Inl e \<Rightarrow> (Inl e, s1)
           | Inr _ \<Rightarrow> if upd then update_data E s1 else (Inr JNull, s1))))"

definition pause_schedules :: "env \<Rightarrow> json \<Rightarrow> bool \<Rightarrow> device \<Rightarrow> (exn + json) \<times> device" where
  "pause_schedules E v upd s =
     (case api_path s of Inl e \<Rightarrow> (Inl e, s)
      | Inr p \<Rightarrow>
        (case api_call E PUT (p @ ''settings/paused'') (Some (JObj [(''value'', v)])) s of
           (response, s1) \<Rightarrow>
          (case raise_for_status response of Inl e \<Rightarrow> (Inl e, s1)
           | Inr _ \<Rightarrow> if upd then update_data E s1 else (Inr JNull, s1))))"

text \<open>
  The property setters call the coroutine function \<open>put_setting\<close> and drop the coroutine
  it returns: it is never awaited, so its body never runs. A coroutine is the state
  transformer that awaiting it would run; the setter binds it and returns the proxy as
  it is.
\<close>

definition paused_setter :: "env \<Rightarrow> json \<Rightarrow> device \<Rightarrow> device" where
  "paused_setter E v s = (let coroutine = put_setting E ''paused'' v False in s)"

definition slow_feed_setter :: "env \<Rightarrow> json \<Rightarrow> device \<Rightarrow> device" where
  "slow_feed_setter E v s = (let coroutine = put_setting E ''slow_feed'' v False in s)"

definition child_lock_setter :: "env \<Rightarrow> json \<Rightarrow> device \<Rightarrow> device" where
  "child_lock_setter E v s = (let coroutine = put_setting E ''child_lock'' v False in s)"

definition friendly_name_setter :: "env \<Rightarrow> json \<Rightarrow> device \<Rightarrow> device" where
  "friendly_name_setter E v s = (let coroutine = put_setting E ''friendly_name'' v False in s)"

definition pet_type_setter :: "env \<Rightarrow> json \<Rightarrow> device \<Rightarrow> device" where
  "pet_type_setter E v s = (let coroutine = put_setting E ''pet_type'' v False in s)"

section \<open>DeviceScoopfree\<close>

definition scoopfree_api_name :: "device \<Rightarrow> exn + json" where
  "scoopfree_api_name s = subscript (data s) ''thingName''"

definition scoopfree_api_path :: "device \<Rightarrow> exn + string" where
  "scoopfree_api_path s =
     (case scoopfree_api_name s of Inl e \<Rightarrow> Inl e
      | Inr n \<Rightarrow>
        (case concat_str ''scoopfree/product/product/'' n of Inl e \<Rightarrow> Inl e
         | Inr p \<Rightarrow> Inr (p @ ''/'')))"

definition scoopfree_update_data :: "env \<Rightarrow> device \<Rightarrow> (exn + json) \<times> device" where
  "scoopfree_update_data E s =
     (case scoopfree_api_path s of Inl e \<Rightarrow> (Inl e, s)
      | Inr p \<Rightarrow>
        (case api_call E GET p None s of (response, s1) \<Rightarrow>
          (case raise_for_status response of Inl e \<Rightarrow> (Inl e, s1)
           | Inr _ \<Rightarrow>
             (case json_loads E (content response) of Inl e \<Rightarrow> (Inl e, s1)
              | Inr d \<Rightarrow> (Inr JNull, s1\<lparr>data := d\<rparr>)))))"

text \<open>
  The tail shared by \<open>rake\<close>, \<open>reset\<close> and \<open>modify_timer\<close>: refresh and return
  \<open>self.data["data"]\<close> when \<open>update_data\<close> is set, else fall off the end with \<open>None\<close>.
\<close>

definition refresh_and_return :: "env \<Rightarrow> bool \<Rightarrow> device \<Rightarrow> (exn + json) \<times> device" where
  "refresh_and_return E upd s =
     (if upd
      then (case scoopfree_update_data E s of
              (Inl e, s1) \<Rightarrow> (Inl e, s1)
            | (Inr _, s1) \<Rightarrow> (subscript (data s1) ''data'', s1))
      else (Inr JNull, s))"

definition rake :: "env \<Rightarrow> bool \<Rightarrow> device \<Rightarrow> (exn + json) \<times> device" where
  "rake E upd s =
     (case scoopfree_api_path s of Inl e \<Rightarrow> (Inl e, s)
      | Inr p \<Rightarrow>
        (case api_call E POST (p @ ''rake-now'') (Some (JObj [])) s of (response, s1) \<Rightarrow>
          (case raise_for_status response of Inl e \<Rightarrow> (Inl e, s1)
           | Inr _ \<Rightarrow> refresh_and_return E upd s1)))"

definition reset :: "env \<Rightarrow> json \<Rightarrow> bool \<Rightarrow> device \<Rightarrow> (exn + json) \<times> device" where
  "reset E rakeCount upd s =
     (case scoopfree_api_path s of Inl e \<Rightarrow> (Inl e, s)
      | Inr p \<Rightarrow>
        (case api_call E PATCH (p @ ''shadow'') (Some (JObj [(''rakeCount'', rakeCount)])) s of
           (response, s1) \<Rightarrow>
          (case raise_for_status response of Inl e \<Rightarrow> (Inl e, s1)
           | Inr _ \<Rightarrow> refresh_and_return E upd s1)))"

definition modify_timer :: "env \<Rightarrow> json \<Rightarrow> bool \<Rightarrow> device \<Rightarrow> (exn + json) \<times> device" where
  "modify_timer E rakeDelayTime upd s =
     (case scoopfree_api_path s of Inl e \<Rightarrow> (Inl e, s)
      | Inr p \<Rightarrow>
        (case api_call E PATCH (p @ ''shadow'')
                (Some (JObj [(''rakeDelayTime'', rakeDelayTime)])) s of
           (response, s1) \<Rightarrow>
          (case raise_for_status response of Inl e \<Rightarrow> (Inl e, s1)
           | Inr _ \<Rightarrow> refresh_and_return E upd s1)))"

definition get_activity :: "env \<Rightarrow> device \<Rightarrow> (exn + json) \<times> device" where
  "get_activity E s =
     (case scoopfree_api_path s of Inl e \<Rightarrow> (Inl e, s)
      | Inr p \<Rightarrow>
        (case api_call E GET (p @ ''activity'') None s of (response, s1) \<Rightarrow>
          (case raise_for_status response of Inl e \<Rightarrow> (Inl e, s1)
           | Inr _ \<Rightarrow> (json_loads E (content response), s1))))"

text \<open>\<open>self.data[setting] = value\<close>: the key is written at the top level.\<close>

definition store_top :: "string \<Rightarrow> json \<Rightarrow> device \<Rightarrow> (exn + json) \<times> device" where
  "store_top setting v s =
     (case store (data s) setting v of Inl e \<Rightarrow> (Inl e, s)
      | Inr d \<Rightarrow> (Inr JNull, s\<lparr>data := d\<rparr>))"

definition patch_setting :: "env \<Rightarrow> string \<Rightarrow> json \<Rightarrow> bool \<Rightarrow> device \<Rightarrow> (exn + json) \<times> device" where
  "patch_setting E setting v force_update s =
     (case scoopfree_api_path s of Inl e \<Rightarrow> (Inl e, s)
      | Inr p \<Rightarrow>
        (case api_call E PATCH (p @ ''settings'') (Some (JObj [(setting, v)])) s of
           (response, s1) \<Rightarrow>
          (case raise_for_status response of Inl e \<Rightarrow> (Inl e, s1)
           | Inr _ \<Rightarrow>
             if force_update then scoopfree_update_data E s1 else store_top setting v s1)))"

definition scoopfree_friendly_name_setter :: "env \<Rightarrow> json \<Rightarrow> device \<Rightarrow> device" where
  "scoopfree_friendly_name_setter E v s =
     (let coroutine = patch_setting E ''friendlyName'' v False in s)"

section \<open>Numbers as the interpreter computes them\<close>

text \<open>
  Truth value of an object, as \<open>not x\<close> and \<open>if x:\<close> test it.
\<close>

fun truthy :: "json \<Rightarrow> bool" where
  "truthy JNull = False"
| "truthy (JBool b) = b"
| "truthy (JInt i) = (i \<noteq> 0)"
| "truthy (JFloat f) = (f \<noteq> Finite 0)"
| "truthy (JStr cs) = (cs \<noteq> [])"
| "truthy (JList xs) = (xs \<noteq> [])"
| "truthy (JObj kvs) = (kvs \<noteq> [])"

text \<open>
  \<open>int(s)\<close> for a str, base ten: white space around the numeral is dropped, one sign may
  lead, and the digits may be separated by single underscores. A character is a code point
  below 256, where the white space is tab to carriage return, the blank, NEL and the
  no-break space, and the only decimal digits are the ASCII ones. A numeral of more than
  4300 digits is refused (the interpreter's default limit).
\<close>

definition is_space :: "char \<Rightarrow> bool" where
  "is_space c \<longleftrightarrow> (of_char c :: nat) \<in> {9, 10, 11, 12, 13, 32, 133, 160}"

definition is_digit :: "char \<Rightarrow> bool" where
  "is_digit c \<longleftrightarrow> 48 \<le> (of_char c :: nat) \<and> (of_char c :: nat) \<le> 57"

definition strip :: "string \<Rightarrow> string" where
  "strip cs = rev (dropWhile is_space (rev (dropWhile is_space cs)))"

fun read_digits :: "int \<Rightarrow> string \<Rightarrow> int option" where
  "read_digits acc [] = Some acc"
| "read_digits acc (c # cs) =
     (if is_digit c then read_digits (10 * acc + (of_char c - 48)) cs
      else if c = CHR ''_'' \<and> (case cs of [] \<Rightarrow> False | d # _ \<Rightarrow> is_digit d)
      then read_digits acc cs
      else None)"

definition unsigned :: "string \<Rightarrow> int option" where
  "unsigned cs =
     (case cs of [] \<Rightarrow> None
      | c # _ \<Rightarrow>
        if \<not> is_digit c then None
        else if length (filter is_digit cs) > 4300 then None
        else read_digits 0 cs)"

definition int_of_str :: "string \<Rightarrow> int option" where
  "int_of_str cs =
     (case strip cs of
        [] \<Rightarrow> None
      | c # rest \<Rightarrow>
        if c = CHR ''-'' then map_option uminus (unsigned rest)
        else if c = CHR ''+'' then unsigned rest
        else unsigned (c # rest))"

text \<open>
  \<open>int(x)\<close>: an int is itself, a bool is 0 or 1, a float is cut towards zero (a NaN is a
  ValueError, an infinity an OverflowError), a str is parsed, and \<open>None\<close>, a list or a dict
  is a TypeError.
\<close>

definition trunc :: "rat \<Rightarrow> int" where
  "trunc r = (if r < 0 then - \<lfloor>- r\<rfloor> else \<lfloor>r\<rfloor>)"

fun py_int :: "json \<Rightarrow> exn + int" where
  "py_int (JInt i) = Inr i"
| "py_int (JBool b) = Inr (if b then 1 else 0)"
| "py_int (JFloat (Finite r)) = Inr (trunc r)"
| "py_int (JFloat NaN) = Inl ValueError"
| "py_int (JFloat _) = Inl OverflowError"
| "py_int (JStr cs) = (case int_of_str cs of None \<Rightarrow> Inl ValueError | Some i \<Rightarrow> Inr i)"
| "py_int _ = Inl TypeError"

text \<open>
  Floats are IEEE 754 binary64. \<open>to_double\<close> rounds a rational to the nearest float, ties
  to the even significand: 53 bits at the exponent of the number, and the fixed step
  \<open>2 ^ -1074\<close> below the normal range. The two zeros are one value here (they compare
  equal).
\<close>

definition round_half_even :: "rat \<Rightarrow> int" where
  "round_half_even x =
     (let f = \<lfloor>x\<rfloor>; d = x - of_int f
      in if d < 1 / 2 then f else if 1 / 2 < d then f + 1 else if even f then f else f + 1)"

definition pow2 :: "int \<Rightarrow> rat" where
  "pow2 e = (if 0 \<le> e then 2 ^ nat e else 1 / 2 ^ nat (- e))"

definition ilog2 :: "rat \<Rightarrow> int" where
  "ilog2 x =
     (case quotient_of \<bar>x\<bar> of (p, q) \<Rightarrow>
        let d = bitlen p - bitlen q in if pow2 d \<le> \<bar>x\<bar> then d else d - 1)"

definition to_double :: "rat \<Rightarrow> rat" where
  "to_double x =
     (if x = 0 then 0
      else let e = max (ilog2 x) (- 1022); step = pow2 (e - 52)
           in of_int (round_half_even (x / step)) * step)"

text \<open>
  \<open>a / b\<close> on two ints: the quotient rounded once to a float, an OverflowError when that
  is beyond the largest float. The divisors of this file are non-zero constants.
\<close>

definition int_truediv :: "int \<Rightarrow> int \<Rightarrow> exn + rat" where
  "int_truediv a b =
     (let r = to_double (of_int a / of_int b)
      in if 2 ^ 1024 \<le> \<bar>r\<bar> then Inl OverflowError else Inr r)"

text \<open>\<open>x * y\<close> on two finite floats: the product rounded, an infinity beyond the range.\<close>

definition float_mul :: "rat \<Rightarrow> rat \<Rightarrow> pyfloat" where
  "float_mul x y =
     (let r = to_double (x * y)
      in if 2 ^ 1024 \<le> r then PosInf else if r \<le> - (2 ^ 1024) then NegInf else Finite r)"

text \<open>
  \<open>round(x, 3)\<close> on a float: the float nearest to the decimal with three places that is
  nearest to \<open>x\<close>, ties to even; an infinity or a NaN is returned as it is.
\<close>

fun round_3 :: "pyfloat \<Rightarrow> pyfloat" where
  "round_3 (Finite r) = Finite (to_double (of_int (round_half_even (r * 1000)) / 1000))"
| "round_3 f = f"

section \<open>The battery accessors of DeviceSmartFeed\<close>

text \<open>
  \<open>battery_voltage\<close>: the body of the \<open>try\<close> is evaluated first; of what it raises only a
  ValueError is caught and turned into \<open>-1\<close>.
\<close>

definition battery_voltage_try :: "device \<Rightarrow> exn + json" where
  "battery_voltage_try s =
     (case subscript (data s) ''battery_voltage'' of Inl e \<Rightarrow> Inl e
      | Inr raw \<Rightarrow>
        (case py_int raw of Inl e \<Rightarrow> Inl e
         | Inr n \<Rightarrow>
           (case int_truediv n 32767 of Inl e \<Rightarrow> Inl e
            | Inr x \<Rightarrow> Inr (JFloat (round_3 (float_mul x (to_double (72 / 10))))))))"

definition battery_voltage :: "device \<Rightarrow> exn + json" where
  "battery_voltage s =
     (case battery_voltage_try s of
        Inl e \<Rightarrow> if e = ValueError then Inr (JInt (- 1)) else Inl e
      | Inr v \<Rightarrow> Inr v)"

text \<open>
  \<open>battery_level\<close>: \<open>max(x, 0)\<close> keeps the float \<open>x\<close> unless \<open>0 > x\<close>, and \<open>round\<close>
  without digits gives the nearest int, ties to even.
\<close>

definition battery_level :: "device \<Rightarrow> exn + json" where
  "battery_level s =
     (case subscript (data s) ''is_batteries_installed'' of Inl e \<Rightarrow> Inl e
      | Inr installed \<Rightarrow>
        if \<not> truthy installed then Inr (JInt 0)
        else
          let minVoltage = 22755; maxVoltage = 29100
          in (case subscript (data s) ''battery_voltage'' of Inl e \<Rightarrow> Inl e
              | Inr raw \<Rightarrow>
                (case py_int raw of Inl e \<Rightarrow> Inl e
                 | Inr n \<Rightarrow>
                   (case int_truediv (100 * (n - minVoltage)) (maxVoltage - minVoltage) of
                      Inl e \<Rightarrow> Inl e
                    | Inr x \<Rightarrow> Inr (JInt (if 0 > x then 0 else round_half_even x))))))"

section \<open>Calls, histories and stand-ins for the collaborators\<close>

text \<open>
  What one call did to the client: the requests it issued, with the responses they got,
  are what the history gained.
\<close>

definition exchanged :: "device \<Rightarrow> device \<Rightarrow> (request \<times> response) list" where
  "exchanged s s' = drop (length (client s)) (client s')"

definition issued :: "device \<Rightarrow> device \<Rightarrow> request list" where
  "issued s s' = map fst (exchanged s s')"

text \<open>
  The mutating operations of the two classes as a datatype of calls, so that a statement
  can range over all of them.
\<close>

datatype mutation =
    Put_setting string json bool
  | Patch_setting string json bool
  | Feed json json bool
  | Schedule_feed json json bool
  | Modify_schedule json json string bool
  | Delete_schedule string bool
  | Delete_all_schedules bool
  | Pause_schedules json bool
  | Rake bool
  | Reset json bool
  | Modify_timer json bool

fun mutate :: "env \<Rightarrow> mutation \<Rightarrow> device \<Rightarrow> (exn + json) \<times> device" where
  "mutate E (Put_setting k v f) s = put_setting E k v f s"
| "mutate E (Patch_setting k v f) s = patch_setting E k v f s"
| "mutate E (Feed a sl u) s = feed E a sl u s"
| "mutate E (Schedule_feed t a u) s = schedule_feed E t a u s"
| "mutate E (Modify_schedule t a i u) s = modify_schedule E t a i u s"
| "mutate E (Delete_schedule i u) s = delete_schedule E i u s"
| "mutate E (Delete_all_schedules u) s = delete_all_schedules E u s"
| "mutate E (Pause_schedules v u) s = pause_schedules E v u s"
| "mutate E (Rake u) s = rake E u s"
| "mutate E (Reset c u) s = reset E c u s"
| "mutate E (Modify_timer d u) s = modify_timer E d u s"

text \<open>
  Stand-ins used to run the model on concrete inputs: a server that answers the i-th
  request with the i-th response of a script (and 500 after the script), and a decoder
  that knows the bodies of a table and raises on any other.
\<close>

definition scripted :: "response list \<Rightarrow> request list \<Rightarrow> response" where
  "scripted rs rqs =
     (if rqs \<noteq> [] \<and> length rqs \<le> length rs then rs ! (length rqs - 1)
      else \<lparr>status_code = 500, content = []\<rparr>)"

definition decoder :: "(string \<times> json) list \<Rightarrow> string \<Rightarrow> exn + json" where
  "decoder table c = (case map_of table c of None \<Rightarrow> Inl ValueError | Some d \<Rightarrow> Inr d)"

definition feeder_doc :: json where
  "feeder_doc =
     JObj [(''thing_name'', JStr ''f1''),
           (''settings'', JObj [(''slow_feed'', JBool True), (''paused'', JBool False)]),
           (''is_batteries_installed'', JBool True),
           (''battery_voltage'', JStr ''29100'')]"

definition litterbox_doc :: json where
  "litterbox_doc = JObj [(''thingName'', JStr ''s1''), (''friendlyName'', JStr ''box'')]"

definition stand_in :: "response list \<Rightarrow> env" where
  "stand_in rs =
     \<lparr>server = scripted rs,
      json_loads = decoder [(''feeder'', feeder_doc), (''litterbox'', litterbox_doc),
                            (''[]'', JList [])]\<rparr>"


text \<open>
  The outcome of a call that respects the failure rule: the history only grows, and if
  any response it received was not a success, the call raised the remote error and the
  snapshot is the one before the call.
\<close>

definition guarded :: "device \<Rightarrow> (exn + json) \<times> device \<Rightarrow> bool" where
  "guarded s out =
     (case out of (r, s') \<Rightarrow>
        \<exists>xs. client s' = client s @ xs \<and>
          ((\<exists>x\<in>set xs. \<not> is_success (snd x)) \<longrightarrow> r = Inl HTTPStatusError \<and> data s' = data s))"

section \<open>Paths\<close>

lemma api_path_of_name:
  "subscript (data s) ''thing_name'' = Inr (JStr n) \<Longrightarrow>
   api_path s = Inr (''smart-feed/feeders/'' @ n @ ''/'')"
  by (simp add: api_path_def api_name_def)

lemma scoopfree_api_path_of_name:
  "subscript (data s) ''thingName'' = Inr (JStr n) \<Longrightarrow>
   scoopfree_api_path s = Inr (''scoopfree/product/product/'' @ n @ ''/'')"
  by (simp add: scoopfree_api_path_def scoopfree_api_name_def)

text \<open>
  C9. The feeder's path is "smart-feed/feeders/" followed by the snapshot's \<open>thing_name\<close>
  and "/", the litterbox's is "scoopfree/product/product/" followed by \<open>thingName\<close> and
  "/": plain concatenation of the identity string, whatever characters it holds.
\<close>

theorem api_path_is_concatenation:
  "(subscript (data s) ''thing_name'' = Inr (JStr n) \<longrightarrow>
      api_path s = Inr (''smart-feed/feeders/'' @ n @ ''/'')) \<and>
   (subscript (data s) ''thingName'' = Inr (JStr m) \<longrightarrow>
      scoopfree_api_path s = Inr (''scoopfree/product/product/'' @ m @ ''/''))"
  by (simp add: api_path_of_name scoopfree_api_path_of_name)

theorem api_path_is_concatenation_witness:
  "subscript (data \<lparr>data = JObj [(''thing_name'', JStr ''a/b c''), (''thingName'', JStr ''x?y'')],
                    client = []\<rparr>) ''thing_name'' = Inr (JStr ''a/b c'') \<and>
   api_path \<lparr>data = JObj [(''thing_name'', JStr ''a/b c''), (''thingName'', JStr ''x?y'')],
             client = []\<rparr> = Inr ''smart-feed/feeders/a/b c/'' \<and>
   subscript (data \<lparr>data = JObj [(''thing_name'', JStr ''a/b c''), (''thingName'', JStr ''x?y'')],
                    client = []\<rparr>) ''thingName'' = Inr (JStr ''x?y'') \<and>
   scoopfree_api_path \<lparr>data = JObj [(''thing_name'', JStr ''a/b c''), (''thingName'', JStr ''x?y'')],
                       client = []\<rparr> = Inr ''scoopfree/product/product/x?y/''"
  using api_path_is_concatenation
    [of "\<lparr>data = JObj [(''thing_name'', JStr ''a/b c''), (''thingName'', JStr ''x?y'')],
          client = []\<rparr>" "''a/b c''" "''x?y''"]
  by simp

section \<open>Refresh\<close>

lemma update_data_success:
  assumes "update_data E s = (Inr v, s')"
  shows "\<exists>p rs. api_path s = Inr p \<and>
           rs = server E (map fst (client s) @ [\<lparr>http_method = GET, path = p, payload = None\<rparr>]) \<and>
           client s' = client s @ [(\<lparr>http_method = GET, path = p, payload = None\<rparr>, rs)] \<and>
           is_success rs \<and> json_loads E (content rs) = Inr (data s')"
  using assms
  by (auto simp: update_data_def api_call_def raise_for_status_def Let_def
           split: sum.splits if_splits)

lemma scoopfree_update_data_success:
  assumes "scoopfree_update_data E s = (Inr v, s')"
  shows "\<exists>p rs. scoopfree_api_path s = Inr p \<and>
           rs = server E (map fst (client s) @ [\<lparr>http_method = GET, path = p, payload = None\<rparr>]) \<and>
           client s' = client s @ [(\<lparr>http_method = GET, path = p, payload = None\<rparr>, rs)] \<and>
           is_success rs \<and> json_loads E (content rs) = Inr (data s')"
  using assms
  by (auto simp: scoopfree_update_data_def api_call_def raise_for_status_def Let_def
           split: sum.splits if_splits)

text \<open>
  C3. Every successful \<open>update_data\<close>, of the feeder and of the litterbox, issued one GET
  on the proxy's path and leaves as snapshot exactly the document decoded from the body of
  its response: nothing of the old snapshot is kept. In particular, when that document is
  the current snapshot, the snapshot after the call is the one before it.
\<close>

theorem refresh_replaces_snapshot:
  "(update_data E s = (Inr v, s') \<longrightarrow>
      (\<exists>rq rs. exchanged s s' = [(rq, rs)] \<and> http_method rq = GET \<and> is_success rs \<and>
         json_loads E (content rs) = Inr (data s') \<and>
         (json_loads E (content rs) = Inr (data s) \<longrightarrow> data s' = data s))) \<and>
   (scoopfree_update_data E t = (Inr w, t') \<longrightarrow>
      (\<exists>rq rs. exchanged t t' = [(rq, rs)] \<and> http_method rq = GET \<and> is_success rs \<and>
         json_loads E (content rs) = Inr (data t') \<and>
         (json_loads E (content rs) = Inr (data t) \<longrightarrow> data t' = data t)))"
proof (intro conjI impI)
  assume "update_data E s = (Inr v, s')"
  then obtain p rs
    where "client s' = client s @ [(\<lparr>http_method = GET, path = p, payload = None\<rparr>, rs)]"
      and "is_success rs" and "json_loads E (content rs) = Inr (data s')"
    using update_data_success by blast
  then show "\<exists>rq rs. exchanged s s' = [(rq, rs)] \<and> http_method rq = GET \<and> is_success rs \<and>
         json_loads E (content rs) = Inr (data s') \<and>
         (json_loads E (content rs) = Inr (data s) \<longrightarrow> data s' = data s)"
    by (simp add: exchanged_def)
next
  assume "scoopfree_update_data E t = (Inr w, t')"
  then obtain p rs
    where "client t' = client t @ [(\<lparr>http_method = GET, path = p, payload = None\<rparr>, rs)]"
      and "is_success rs" and "json_loads E (content rs) = Inr (data t')"
    using scoopfree_update_data_success by blast
  then show "\<exists>rq rs. exchanged t t' = [(rq, rs)] \<and> http_method rq = GET \<and> is_success rs \<and>
         json_loads E (content rs) = Inr (data t') \<and>
         (json_loads E (content rs) = Inr (data t) \<longrightarrow> data t' = data t)"
    by (simp add: exchanged_def)
qed

text \<open>
  The theorem at work: a feeder and a litterbox whose server answers the refresh with the
  very document they hold. Both calls succeed and both snapshots stay what they were.
\<close>

theorem refresh_replaces_snapshot_witness:
  "update_data (stand_in [\<lparr>status_code = 200, content = ''feeder''\<rparr>])
     \<lparr>data = feeder_doc, client = []\<rparr>
   = (Inr JNull,
      \<lparr>data = feeder_doc,
       client = [(\<lparr>http_method = GET, path = ''smart-feed/feeders/f1/'', payload = None\<rparr>,
                  \<lparr>status_code = 200, content = ''feeder''\<rparr>)]\<rparr>) \<and>
   scoopfree_update_data (stand_in [\<lparr>status_code = 200, content = ''feeder''\<rparr>])
     \<lparr>data = litterbox_doc, client = []\<rparr>
   = (Inr JNull,
      \<lparr>data = feeder_doc,
       client = [(\<lparr>http_method = GET, path = ''scoopfree/product/product/s1/'', payload = None\<rparr>,
                  \<lparr>status_code = 200, content = ''feeder''\<rparr>)]\<rparr>) \<and>
   (\<exists>rq rs. exchanged \<lparr>data = feeder_doc, client = []\<rparr>
        \<lparr>data = feeder_doc,
         client = [(\<lparr>http_method = GET, path = ''smart-feed/feeders/f1/'', payload = None\<rparr>,
                    \<lparr>status_code = 200, content = ''feeder''\<rparr>)]\<rparr> = [(rq, rs)] \<and>
      json_loads (stand_in [\<lparr>status_code = 200, content = ''feeder''\<rparr>]) (content rs)
        = Inr feeder_doc)"
proof -
  let ?E = "stand_in [\<lparr>status_code = 200, content = ''feeder''\<rparr>]"
  let ?s = "\<lparr>data = feeder_doc, client = []\<rparr>"
  let ?t = "\<lparr>data = litterbox_doc, client = []\<rparr>"
  let ?s' = "\<lparr>data = feeder_doc,
       client = [(\<lparr>http_method = GET, path = ''smart-feed/feeders/f1/'', payload = None\<rparr>,
                  \<lparr>status_code = 200, content = ''feeder''\<rparr>)]\<rparr>"
  let ?t' = "\<lparr>data = feeder_doc,
       client = [(\<lparr>http_method = GET, path = ''scoopfree/product/product/s1/'', payload = None\<rparr>,
                  \<lparr>status_code = 200, content = ''feeder''\<rparr>)]\<rparr>"
  have a: "update_data ?E ?s = (Inr JNull, ?s')"
    by (simp add: update_data_def api_path_def api_name_def feeder_doc_def stand_in_def
        scripted_def decoder_def api_call_def raise_for_status_def is_success_def Let_def)
  have b: "scoopfree_update_data ?E ?t = (Inr JNull, ?t')"
    by (simp add: scoopfree_update_data_def scoopfree_api_path_def scoopfree_api_name_def
        litterbox_doc_def stand_in_def scripted_def decoder_def api_call_def
        raise_for_status_def is_success_def Let_def)
  from refresh_replaces_snapshot [of ?E ?s JNull ?s' ?t JNull ?t'] a b
  show ?thesis by auto
qed

section \<open>Property setters\<close>

text \<open>
  For contrast, the coroutine that the setters drop: once awaited, \<open>put_setting\<close> on a
  feeder whose path can be built does issue its PUT.
\<close>

lemma awaited_put_setting_issues_request:
  assumes "api_path s = Inr p"
  shows "take 1 (issued s (snd (put_setting E k v False s))) =
           [\<lparr>http_method = PUT, path = p @ ''settings/'' @ k,
             payload = Some (JObj [(''value'', v)])\<rparr>]"
  using assms
  by (auto simp: put_setting_def store_setting_def api_call_def raise_for_status_def Let_def
        issued_def exchanged_def split: sum.splits)

text \<open>
  C10. Assigning to \<open>paused\<close>, \<open>slow_feed\<close>, \<open>child_lock\<close>, \<open>friendly_name\<close> or
  \<open>pet_type\<close> of a feeder, or to \<open>friendly_name\<close> of a litterbox, issues no request and
  leaves the snapshot as it was, for every proxy and every value: the coroutine the setter
  creates is never awaited.
\<close>

theorem setters_do_nothing:
  "issued s (paused_setter E v s) = [] \<and> data (paused_setter E v s) = data s \<and>
   issued s (slow_feed_setter E v s) = [] \<and> data (slow_feed_setter E v s) = data s \<and>
   issued s (child_lock_setter E v s) = [] \<and> data (child_lock_setter E v s) = data s \<and>
   issued s (friendly_name_setter E v s) = [] \<and> data (friendly_name_setter E v s) = data s \<and>
   issued s (pet_type_setter E v s) = [] \<and> data (pet_type_setter E v s) = data s \<and>
   issued s (scoopfree_friendly_name_setter E v s) = [] \<and>
   data (scoopfree_friendly_name_setter E v s) = data s"
  by (simp add: paused_setter_def slow_feed_setter_def child_lock_setter_def
      friendly_name_setter_def pet_type_setter_def scoopfree_friendly_name_setter_def
      issued_def exchanged_def)

section \<open>Feeding\<close>

lemma update_data_gets:
  "\<exists>xs. client (snd (update_data E s)) = client s @ xs \<and> (\<forall>x\<in>set xs. http_method (fst x) = GET)"
  by (auto simp: update_data_def api_call_def raise_for_status_def Let_def split: sum.splits)

lemma feed_request:
  assumes "api_path s = Inr p"
    and "(if slow_feed = JNull
          then (case subscript (data s) ''settings'' of Inl e \<Rightarrow> Inl e
                | Inr settings \<Rightarrow> subscript settings ''slow_feed'')
          else Inr slow_feed) = Inr v"
  shows "\<exists>rest. issued s (snd (feed E amount slow_feed upd s)) =
           \<lparr>http_method = POST, path = p @ ''meals'',
            payload = Some (JObj [(''amount'', amount), (''slow_feed'', v)])\<rparr> # rest \<and>
           (\<forall>rq\<in>set rest. http_method rq = GET)"
proof -
  let ?rq = "\<lparr>http_method = POST, path = p @ ''meals'',
              payload = Some (JObj [(''amount'', amount), (''slow_feed'', v)])\<rparr>"
  let ?rs = "server E (map fst (client s) @ [?rq])"
  let ?s1 = "s\<lparr>client := client s @ [(?rq, ?rs)]\<rparr>"
  have call: "api_call E POST (p @ ''meals'')
                (Some (JObj [(''amount'', amount), (''slow_feed'', v)])) s = (?rs, ?s1)"
    by (simp add: api_call_def Let_def)
  show ?thesis
  proof (cases "is_success ?rs \<and> upd")
    case True
    then have "feed E amount slow_feed upd s = update_data E ?s1"
      using assms call by (simp add: feed_def raise_for_status_def)
    moreover obtain xs where "client (snd (update_data E ?s1)) = client ?s1 @ xs"
      and "\<forall>x\<in>set xs. http_method (fst x) = GET"
      using update_data_gets by blast
    ultimately show ?thesis
      by (simp add: issued_def exchanged_def)
  next
    case False
    then have "snd (feed E amount slow_feed upd s) = ?s1"
      using assms call by (auto simp: feed_def raise_for_status_def)
    then show ?thesis
      by (simp add: issued_def exchanged_def)
  qed
qed

text \<open>
  C7. On every feeder whose path can be built, \<open>prime\<close> issues exactly one feed request,
  the POST to \<open>meals\<close> with amount 5 and slow_feed false, first; whatever follows is the
  GET of the refresh. The snapshot's \<open>settings\<close> are not read: nothing is assumed of them,
  and the request is the same on every snapshot.
\<close>

theorem prime_feeds_five_fast:
  assumes "api_path s = Inr p"
  shows "\<exists>rest. issued s (snd (prime E s)) =
           \<lparr>http_method = POST, path = p @ ''meals'',
            payload = Some (JObj [(''amount'', JInt 5), (''slow_feed'', JBool False)])\<rparr> # rest \<and>
           (\<forall>rq\<in>set rest. http_method rq = GET)"
  unfolding prime_def using assms by (intro feed_request) simp_all

text \<open>
  C8. On every feeder whose path can be built: \<open>feed\<close> called without a slow-feed value
  sends the value stored under \<open>settings.slow_feed\<close> of the snapshot, and \<open>feed\<close> called
  with a value sends that value.
\<close>

theorem feed_slow_feed_default:
  assumes "api_path s = Inr p"
  shows "(subscript (data s) ''settings'' = Inr settings \<and>
          subscript settings ''slow_feed'' = Inr v \<longrightarrow>
            take 1 (issued s (snd (feed E amount JNull upd s))) =
              [\<lparr>http_method = POST, path = p @ ''meals'',
                payload = Some (JObj [(''amount'', amount), (''slow_feed'', v)])\<rparr>]) \<and>
         (explicit \<noteq> JNull \<longrightarrow>
            take 1 (issued s (snd (feed E amount explicit upd s))) =
              [\<lparr>http_method = POST, path = p @ ''meals'',
                payload = Some (JObj [(''amount'', amount), (''slow_feed'', explicit)])\<rparr>])"
proof (intro conjI impI)
  assume "subscript (data s) ''settings'' = Inr settings \<and>
          subscript settings ''slow_feed'' = Inr v"
  then show "take 1 (issued s (snd (feed E amount JNull upd s))) =
      [\<lparr>http_method = POST, path = p @ ''meals'',
        payload = Some (JObj [(''amount'', amount), (''slow_feed'', v)])\<rparr>]"
    using feed_request [OF assms, of JNull v E amount upd] by auto
next
  assume "explicit \<noteq> JNull"
  then show "take 1 (issued s (snd (feed E amount explicit upd s))) =
      [\<lparr>http_method = POST, path = p @ ''meals'',
        payload = Some (JObj [(''amount'', amount), (''slow_feed'', explicit)])\<rparr>]"
    using feed_request [OF assms, of explicit explicit E amount upd] by auto
qed

text \<open>
  The two theorems at work on a feeder that has no \<open>settings\<close> at all (\<open>prime\<close> and an
  explicit value do not need them) and on one whose setting is \<open>True\<close>.
\<close>

theorem prime_feeds_five_fast_witness:
  "api_path \<lparr>data = JObj [(''thing_name'', JStr ''f1'')], client = []\<rparr>
     = Inr ''smart-feed/feeders/f1/'' \<and>
   issued \<lparr>data = JObj [(''thing_name'', JStr ''f1'')], client = []\<rparr>
     (snd (prime (stand_in [\<lparr>status_code = 200, content = []\<rparr>,
                            \<lparr>status_code = 200, content = ''feeder''\<rparr>])
            \<lparr>data = JObj [(''thing_name'', JStr ''f1'')], client = []\<rparr>)) =
     [\<lparr>http_method = POST, path = ''smart-feed/feeders/f1/meals'',
       payload = Some (JObj [(''amount'', JInt 5), (''slow_feed'', JBool False)])\<rparr>,
      \<lparr>http_method = GET, path = ''smart-feed/feeders/f1/'', payload = None\<rparr>]"
proof -
  let ?s = "\<lparr>data = JObj [(''thing_name'', JStr ''f1'')], client = []\<rparr>"
  let ?E = "stand_in [\<lparr>status_code = 200, content = []\<rparr>,
                      \<lparr>status_code = 200, content = ''feeder''\<rparr>]"
  have h: "api_path ?s = Inr ''smart-feed/feeders/f1/''"
    by (simp add: api_path_def api_name_def)
  from prime_feeds_five_fast [OF h, of ?E] obtain rest
    where first: "issued ?s (snd (prime ?E ?s)) =
        \<lparr>http_method = POST, path = ''smart-feed/feeders/f1/'' @ ''meals'',
         payload = Some (JObj [(''amount'', JInt 5), (''slow_feed'', JBool False)])\<rparr> # rest"
    by blast
  have "length (issued ?s (snd (prime ?E ?s))) = 2"
    and "last (issued ?s (snd (prime ?E ?s)))
           = \<lparr>http_method = GET, path = ''smart-feed/feeders/f1/'', payload = None\<rparr>"
    by (simp_all add: prime_def feed_def update_data_def api_path_def api_name_def stand_in_def
        scripted_def decoder_def api_call_def raise_for_status_def is_success_def Let_def
        issued_def exchanged_def feeder_doc_def)
  with first have "rest = [\<lparr>http_method = GET, path = ''smart-feed/feeders/f1/'', payload = None\<rparr>]"
    by (cases rest) auto
  with first h show ?thesis
    by simp
qed

theorem feed_slow_feed_default_witness:
  "api_path \<lparr>data = feeder_doc, client = []\<rparr> = Inr ''smart-feed/feeders/f1/'' \<and>
   subscript (data \<lparr>data = feeder_doc, client = []\<rparr>) ''settings''
     = Inr (JObj [(''slow_feed'', JBool True), (''paused'', JBool False)]) \<and>
   subscript (JObj [(''slow_feed'', JBool True), (''paused'', JBool False)]) ''slow_feed''
     = Inr (JBool True) \<and>
   take 1 (issued \<lparr>data = feeder_doc, client = []\<rparr>
             (snd (feed (stand_in []) (JInt 2) JNull True \<lparr>data = feeder_doc, client = []\<rparr>))) =
     [\<lparr>http_method = POST, path = ''smart-feed/feeders/f1/meals'',
       payload = Some (JObj [(''amount'', JInt 2), (''slow_feed'', JBool True)])\<rparr>] \<and>
   JBool False \<noteq> JNull \<and>
   take 1 (issued \<lparr>data = feeder_doc, client = []\<rparr>
             (snd (feed (stand_in []) (JInt 2) (JBool False) True
                     \<lparr>data = feeder_doc, client = []\<rparr>))) =
     [\<lparr>http_method = POST, path = ''smart-feed/feeders/f1/meals'',
       payload = Some (JObj [(''amount'', JInt 2), (''slow_feed'', JBool False)])\<rparr>]"
proof -
  have h: "api_path \<lparr>data = feeder_doc, client = []\<rparr> = Inr ''smart-feed/feeders/f1/''"
    by (simp add: api_path_def api_name_def feeder_doc_def)
  have g: "subscript (data \<lparr>data = feeder_doc, client = []\<rparr>) ''settings''
             = Inr (JObj [(''slow_feed'', JBool True), (''paused'', JBool False)])"
    by (simp add: feeder_doc_def)
  from feed_slow_feed_default [OF h, of "JObj [(''slow_feed'', JBool True), (''paused'', JBool False)]"
      "JBool True" "stand_in []" "JInt 2" True "JBool False"] h g
  show ?thesis by simp
qed

section \<open>Merging one setting\<close>

lemma store_setting_success:
  assumes "store_setting k v s = (Inr r, s')"
  shows "\<exists>kvs st. data s = JObj kvs \<and> map_of kvs ''settings'' = Some (JObj st) \<and>
           data s' = JObj (AList.update ''settings'' (JObj (AList.update k v st)) kvs) \<and>
           client s' = client s"
proof -
  from assms obtain kvs where d: "data s = JObj kvs"
    by (cases "data s") (auto simp: store_setting_def)
  with assms obtain x where x: "map_of kvs ''settings'' = Some x"
    by (cases "map_of kvs ''settings''") (auto simp: store_setting_def)
  with assms d obtain st where "x = JObj st"
    by (cases x) (auto simp: store_setting_def)
  with assms d x show ?thesis
    by (auto simp: store_setting_def)
qed

lemma put_setting_success:
  assumes "put_setting E k v False s = (Inr r, s')"
  shows "\<exists>kvs st. data s = JObj kvs \<and> map_of kvs ''settings'' = Some (JObj st) \<and>
           data s' = JObj (AList.update ''settings'' (JObj (AList.update k v st)) kvs)"
proof -
  from assms obtain s1 where s1: "store_setting k v s1 = (Inr r, s')" and d: "data s1 = data s"
    by (auto simp: put_setting_def api_call_def raise_for_status_def Let_def
             split: sum.splits if_splits)
  from store_setting_success [OF s1] d show ?thesis
    by auto
qed

lemma patch_setting_success:
  assumes "patch_setting E k v False s = (Inr r, s')"
  shows "\<exists>kvs. data s = JObj kvs \<and> data s' = JObj (AList.update k v kvs)"
proof -
  from assms obtain s1 where s1: "store_top k v s1 = (Inr r, s')" and d: "data s1 = data s"
    by (auto simp: patch_setting_def api_call_def raise_for_status_def Let_def
             split: sum.splits if_splits)
  then show ?thesis
    by (cases "data s") (auto simp: store_top_def)
qed

text \<open>
  C4. After a successful \<open>put_setting\<close> without refresh, the feeder's snapshot holds the
  value under the key inside its \<open>settings\<close> mapping, every other key of \<open>settings\<close> reads
  as before, and so does every top-level key other than \<open>settings\<close>. After a successful
  \<open>patch_setting\<close> without refresh, the litterbox's snapshot holds the value under the key
  at the top level and every other top-level key reads as before.
\<close>

theorem setting_merge_touches_one_key:
  "(put_setting E k v False s = (Inr r, s') \<longrightarrow>
      (\<exists>st st'. subscript (data s) ''settings'' = Inr st \<and>
         subscript (data s') ''settings'' = Inr st' \<and>
         subscript st' k = Inr v \<and>
         (\<forall>j. j \<noteq> k \<longrightarrow> subscript st' j = subscript st j) \<and>
         (\<forall>j. j \<noteq> ''settings'' \<longrightarrow> subscript (data s') j = subscript (data s) j))) \<and>
   (patch_setting E k' v' False t = (Inr w, t') \<longrightarrow>
      subscript (data t') k' = Inr v' \<and>
      (\<forall>j. j \<noteq> k' \<longrightarrow> subscript (data t') j = subscript (data t) j))"
proof (intro conjI impI)
  assume "put_setting E k v False s = (Inr r, s')"
  then obtain kvs st where d: "data s = JObj kvs" and st: "map_of kvs ''settings'' = Some (JObj st)"
    and d': "data s' = JObj (AList.update ''settings'' (JObj (AList.update k v st)) kvs)"
    using put_setting_success by blast
  have "subscript (data s) ''settings'' = Inr (JObj st)"
    using d st by simp
  moreover have "subscript (data s') ''settings'' = Inr (JObj (AList.update k v st))"
    using d' by (simp add: update_conv')
  moreover have "subscript (JObj (AList.update k v st)) k = Inr v"
    by (simp add: update_conv')
  moreover have "\<forall>j. j \<noteq> k \<longrightarrow> subscript (JObj (AList.update k v st)) j = subscript (JObj st) j"
    by (simp add: update_conv')
  moreover have "\<forall>j. j \<noteq> ''settings'' \<longrightarrow> subscript (data s') j = subscript (data s) j"
    using d d' by (simp add: update_conv')
  ultimately show "\<exists>st st'. subscript (data s) ''settings'' = Inr st \<and>
         subscript (data s') ''settings'' = Inr st' \<and>
         subscript st' k = Inr v \<and>
         (\<forall>j. j \<noteq> k \<longrightarrow> subscript st' j = subscript st j) \<and>
         (\<forall>j. j \<noteq> ''settings'' \<longrightarrow> subscript (data s') j = subscript (data s) j)"
    by blast
next
  assume "patch_setting E k' v' False t = (Inr w, t')"
  then obtain kvs where "data t = JObj kvs" and "data t' = JObj (AList.update k' v' kvs)"
    using patch_setting_success by blast
  then show "subscript (data t') k' = Inr v'"
    and "\<forall>j. j \<noteq> k' \<longrightarrow> subscript (data t') j = subscript (data t) j"
    by (simp_all add: update_conv')
qed

text \<open>
  The theorem at work: \<open>slow_feed\<close> of the feeder is switched off and the litterbox is
  renamed, each by one accepted request.
\<close>

theorem setting_merge_touches_one_key_witness:
  "put_setting (stand_in [\<lparr>status_code = 200, content = []\<rparr>]) ''slow_feed'' (JBool False) False
     \<lparr>data = feeder_doc, client = []\<rparr>
   = (Inr JNull,
      \<lparr>data = JObj [(''thing_name'', JStr ''f1''),
                    (''settings'', JObj [(''slow_feed'', JBool False), (''paused'', JBool False)]),
                    (''is_batteries_installed'', JBool True),
                    (''battery_voltage'', JStr ''29100'')],
       client = [(\<lparr>http_method = PUT, path = ''smart-feed/feeders/f1/settings/slow_feed'',
                   payload = Some (JObj [(''value'', JBool False)])\<rparr>,
                  \<lparr>status_code = 200, content = []\<rparr>)]\<rparr>) \<and>
   patch_setting (stand_in [\<lparr>status_code = 200, content = []\<rparr>]) ''friendlyName'' (JStr ''new'') False
     \<lparr>data = litterbox_doc, client = []\<rparr>
   = (Inr JNull,
      \<lparr>data = JObj [(''thingName'', JStr ''s1''), (''friendlyName'', JStr ''new'')],
       client = [(\<lparr>http_method = PATCH, path = ''scoopfree/product/product/s1/settings'',
                   payload = Some (JObj [(''friendlyName'', JStr ''new'')])\<rparr>,
                  \<lparr>status_code = 200, content = []\<rparr>)]\<rparr>) \<and>
   subscript (JObj [(''thing_name'', JStr ''f1''),
                    (''settings'', JObj [(''slow_feed'', JBool False), (''paused'', JBool False)]),
                    (''is_batteries_installed'', JBool True),
                    (''battery_voltage'', JStr ''29100'')]) ''battery_voltage''
     = subscript feeder_doc ''battery_voltage'' \<and>
   subscript (JObj [(''thingName'', JStr ''s1''), (''friendlyName'', JStr ''new'')]) ''thingName''
     = subscript litterbox_doc ''thingName''"
proof -
  let ?E = "stand_in [\<lparr>status_code = 200, content = []\<rparr>]"
  let ?s = "\<lparr>data = feeder_doc, client = []\<rparr>"
  let ?t = "\<lparr>data = litterbox_doc, client = []\<rparr>"
  let ?s' = "\<lparr>data = JObj [(''thing_name'', JStr ''f1''),
                    (''settings'', JObj [(''slow_feed'', JBool False), (''paused'', JBool False)]),
                    (''is_batteries_installed'', JBool True),
                    (''battery_voltage'', JStr ''29100'')],
       client = [(\<lparr>http_method = PUT, path = ''smart-feed/feeders/f1/settings/slow_feed'',
                   payload = Some (JObj [(''value'', JBool False)])\<rparr>,
                  \<lparr>status_code = 200, content = []\<rparr>)]\<rparr>"
  let ?t' = "\<lparr>data = JObj [(''thingName'', JStr ''s1''), (''friendlyName'', JStr ''new'')],
       client = [(\<lparr>http_method = PATCH, path = ''scoopfree/product/product/s1/settings'',
                   payload = Some (JObj [(''friendlyName'', JStr ''new'')])\<rparr>,
                  \<lparr>status_code = 200, content = []\<rparr>)]\<rparr>"
  have a: "put_setting ?E ''slow_feed'' (JBool False) False ?s = (Inr JNull, ?s')"
    by (simp add: put_setting_def store_setting_def api_path_def api_name_def feeder_doc_def
        stand_in_def scripted_def api_call_def raise_for_status_def is_success_def Let_def)
  have b: "patch_setting ?E ''friendlyName'' (JStr ''new'') False ?t = (Inr JNull, ?t')"
    by (simp add: patch_setting_def store_top_def scoopfree_api_path_def scoopfree_api_name_def
        litterbox_doc_def stand_in_def scripted_def api_call_def raise_for_status_def
        is_success_def Let_def)
  from setting_merge_touches_one_key
         [of ?E "''slow_feed''" "JBool False" ?s JNull ?s' "''friendlyName''" "JStr ''new''" ?t JNull ?t']
  have keep: "(\<forall>j. j \<noteq> ''settings'' \<longrightarrow> subscript (data ?s') j = subscript (data ?s) j) \<and>
        (\<forall>j. j \<noteq> ''friendlyName'' \<longrightarrow> subscript (data ?t') j = subscript (data ?t) j)"
    using a b by blast
  have 1: "subscript (data ?s') ''battery_voltage'' = subscript (data ?s) ''battery_voltage''"
    using keep [THEN conjunct1, rule_format, of "''battery_voltage''"]
    by (simp add: feeder_doc_def)
  have 2: "subscript (data ?t') ''thingName'' = subscript (data ?t) ''thingName''"
    using keep [THEN conjunct2, rule_format, of "''thingName''"]
    by (simp add: litterbox_doc_def)
  from a b 1 2 show ?thesis by simp
qed

section \<open>Failed requests\<close>

lemma guarded_put_setting: "guarded s (put_setting E k v f s)"
  by (auto simp: guarded_def put_setting_def store_setting_def update_data_def api_call_def raise_for_status_def
        Let_def split: sum.splits if_splits)

lemma guarded_patch_setting: "guarded s (patch_setting E k v f s)"
  by (auto simp: guarded_def patch_setting_def store_top_def scoopfree_update_data_def api_call_def raise_for_status_def
        Let_def split: sum.splits if_splits)

lemma guarded_feed: "guarded s (feed E a sl u s)"
  by (auto simp: guarded_def feed_def update_data_def api_call_def raise_for_status_def
        Let_def split: sum.splits if_splits)

lemma guarded_schedule_feed: "guarded s (schedule_feed E tm a u s)"
  by (auto simp: guarded_def schedule_feed_def update_data_def api_call_def raise_for_status_def
        Let_def split: sum.splits if_splits)

lemma guarded_modify_schedule: "guarded s (modify_schedule E tm a i u s)"
  by (auto simp: guarded_def modify_schedule_def update_data_def api_call_def raise_for_status_def
        Let_def split: sum.splits if_splits)

lemma guarded_delete_schedule: "guarded s (delete_schedule E i u s)"
  by (auto simp: guarded_def delete_schedule_def update_data_def api_call_def raise_for_status_def
        Let_def split: sum.splits if_splits)

lemma guarded_delete_all_schedules: "guarded s (delete_all_schedules E u s)"
  by (auto simp: guarded_def delete_all_schedules_def update_data_def api_call_def raise_for_status_def
        Let_def split: sum.splits if_splits)

lemma guarded_pause_schedules: "guarded s (pause_schedules E v u s)"
  by (auto simp: guarded_def pause_schedules_def update_data_def api_call_def raise_for_status_def
        Let_def split: sum.splits if_splits)

lemma guarded_rake: "guarded s (rake E u s)"
  by (auto simp: guarded_def rake_def refresh_and_return_def scoopfree_update_data_def api_call_def raise_for_status_def
        Let_def split: sum.splits if_splits)

lemma guarded_reset: "guarded s (reset E c u s)"
  by (auto simp: guarded_def reset_def refresh_and_return_def scoopfree_update_data_def api_call_def raise_for_status_def
        Let_def split: sum.splits if_splits)

lemma guarded_modify_timer: "guarded s (modify_timer E d u s)"
  by (auto simp: guarded_def modify_timer_def refresh_and_return_def scoopfree_update_data_def api_call_def raise_for_status_def
        Let_def split: sum.splits if_splits)

lemma guarded_mutate: "guarded s (mutate E op s)"
  by (cases op)
     (simp_all add: guarded_put_setting guarded_patch_setting guarded_feed guarded_schedule_feed
        guarded_modify_schedule guarded_delete_schedule guarded_delete_all_schedules
        guarded_pause_schedules guarded_rake guarded_reset guarded_modify_timer)

text \<open>
  C2. Whatever mutating operation is called (\<open>put_setting\<close>, \<open>patch_setting\<close>, \<open>feed\<close>,
  \<open>schedule_feed\<close>, \<open>modify_schedule\<close>, \<open>delete_schedule\<close>, \<open>delete_all_schedules\<close>,
  \<open>pause_schedules\<close>, \<open>rake\<close>, \<open>reset\<close>, \<open>modify_timer\<close>): if any response the call
  received, to its write request or to the refresh after it, has a status outside 2xx,
  the call raises the remote error and the snapshot after it is the snapshot before it.
\<close>

theorem failed_request_keeps_snapshot:
  assumes "mutate E op s = (r, s')"
    and "x \<in> set (exchanged s s')"
    and "\<not> is_success (snd x)"
  shows "r = Inl HTTPStatusError \<and> data s' = data s"
proof -
  from guarded_mutate [of s E op] assms(1)
  obtain xs where xs: "client s' = client s @ xs"
    and rule: "(\<exists>x\<in>set xs. \<not> is_success (snd x)) \<longrightarrow> r = Inl HTTPStatusError \<and> data s' = data s"
    by (auto simp: guarded_def)
  from xs have "exchanged s s' = xs"
    by (simp add: exchanged_def)
  with assms(2,3) rule show ?thesis
    by blast
qed

text \<open>
  The theorem at work: a feed that the server accepts but whose refresh is answered 503,
  and a litterbox setting that the server refuses with 404.
\<close>

theorem failed_request_keeps_snapshot_witness:
  "mutate (stand_in [\<lparr>status_code = 200, content = []\<rparr>, \<lparr>status_code = 503, content = []\<rparr>])
     (Feed (JInt 1) JNull True) \<lparr>data = feeder_doc, client = []\<rparr>
   = (Inl HTTPStatusError,
      \<lparr>data = feeder_doc,
       client = [(\<lparr>http_method = POST, path = ''smart-feed/feeders/f1/meals'',
                   payload = Some (JObj [(''amount'', JInt 1), (''slow_feed'', JBool True)])\<rparr>,
                  \<lparr>status_code = 200, content = []\<rparr>),
                 (\<lparr>http_method = GET, path = ''smart-feed/feeders/f1/'', payload = None\<rparr>,
                  \<lparr>status_code = 503, content = []\<rparr>)]\<rparr>) \<and>
   mutate (stand_in [\<lparr>status_code = 404, content = []\<rparr>])
     (Patch_setting ''friendlyName'' (JStr ''new'') False) \<lparr>data = litterbox_doc, client = []\<rparr>
   = (Inl HTTPStatusError,
      \<lparr>data = litterbox_doc,
       client = [(\<lparr>http_method = PATCH, path = ''scoopfree/product/product/s1/settings'',
                   payload = Some (JObj [(''friendlyName'', JStr ''new'')])\<rparr>,
                  \<lparr>status_code = 404, content = []\<rparr>)]\<rparr>) \<and>
   \<not> is_success \<lparr>status_code = 503, content = []\<rparr> \<and>
   \<not> is_success \<lparr>status_code = 404, content = []\<rparr>"
proof -
  let ?E = "stand_in [\<lparr>status_code = 200, content = []\<rparr>, \<lparr>status_code = 503, content = []\<rparr>]"
  let ?s = "\<lparr>data = feeder_doc, client = []\<rparr>"
  let ?x = "(\<lparr>http_method = GET, path = ''smart-feed/feeders/f1/'', payload = None\<rparr>,
             \<lparr>status_code = 503, content = []\<rparr>)"
  let ?F = "stand_in [\<lparr>status_code = 404, content = []\<rparr>]"
  let ?t = "\<lparr>data = litterbox_doc, client = []\<rparr>"
  let ?y = "(\<lparr>http_method = PATCH, path = ''scoopfree/product/product/s1/settings'',
              payload = Some (JObj [(''friendlyName'', JStr ''new'')])\<rparr>,
             \<lparr>status_code = 404, content = []\<rparr>)"
  obtain r s' where a: "mutate ?E (Feed (JInt 1) JNull True) ?s = (r, s')"
    by (cases "mutate ?E (Feed (JInt 1) JNull True) ?s")
  have cs: "client s' =
      [(\<lparr>http_method = POST, path = ''smart-feed/feeders/f1/meals'',
         payload = Some (JObj [(''amount'', JInt 1), (''slow_feed'', JBool True)])\<rparr>,
        \<lparr>status_code = 200, content = []\<rparr>), ?x]"
    using a
    by (auto simp: feed_def update_data_def api_path_def api_name_def feeder_doc_def stand_in_def
        scripted_def api_call_def raise_for_status_def is_success_def Let_def)
  have bad: "\<not> is_success (snd ?x)" "\<not> is_success (snd ?y)"
    by (simp_all add: is_success_def)
  have "?x \<in> set (exchanged ?s s')"
    using cs by (simp add: exchanged_def)
  from failed_request_keeps_snapshot [OF a this bad(1)]
  have 1: "r = Inl HTTPStatusError" "data s' = feeder_doc"
    by simp_all
  obtain w t' where b: "mutate ?F (Patch_setting ''friendlyName'' (JStr ''new'') False) ?t = (w, t')"
    by (cases "mutate ?F (Patch_setting ''friendlyName'' (JStr ''new'') False) ?t")
  have ct: "client t' = [?y]"
    using b
    by (auto simp: patch_setting_def scoopfree_api_path_def scoopfree_api_name_def
        litterbox_doc_def stand_in_def scripted_def api_call_def raise_for_status_def
        is_success_def Let_def)
  have "?y \<in> set (exchanged ?t t')"
    using ct by (simp add: exchanged_def)
  from failed_request_keeps_snapshot [OF b this bad(2)]
  have 2: "w = Inl HTTPStatusError" "data t' = litterbox_doc"
    by simp_all
  have "s' = \<lparr>data = feeder_doc, client = client s'\<rparr>" "t' = \<lparr>data = litterbox_doc, client = client t'\<rparr>"
    using 1 2 by simp_all
  with a b 1 2 cs ct bad show ?thesis
    by simp
qed

section \<open>Repeating the last feeding\<close>

lemma str_int_7: "str_int 7 = ''7''"
  by code_simp

lemma first_feed_done_none:
  assumes "\<forall>m\<in>set ms. \<exists>t. subscript m ''message_type'' = Inr t \<and> t \<noteq> JStr ''FEED_DONE''"
  shows "first_feed_done ms = Inr JNull"
  using assms by (induction ms) auto

text \<open>
  C1. When the feeder's history is fetched and decoded to a list of messages none of
  which has the type FEED_DONE (the empty list included), \<open>get_last_feeding\<close> returns
  \<open>None\<close> and \<open>repeat_feed\<close> then subscripts it: the call raises a TypeError. The only
  request it has issued is the GET of the messages, so no feed request is sent.
\<close>

theorem repeat_feed_without_feed_done:
  assumes "api_path s = Inr p"
    and "rs = server E (map fst (client s) @
                 [\<lparr>http_method = GET, path = p @ ''messages?days=7'', payload = None\<rparr>])"
    and "is_success rs"
    and "json_loads E (content rs) = Inr (JList ms)"
    and "\<forall>m\<in>set ms. \<exists>t. subscript m ''message_type'' = Inr t \<and> t \<noteq> JStr ''FEED_DONE''"
  shows "repeat_feed E s =
           (Inl TypeError,
            s\<lparr>client := client s @
                 [(\<lparr>http_method = GET, path = p @ ''messages?days=7'', payload = None\<rparr>, rs)]\<rparr>)"
proof -
  let ?s1 = "s\<lparr>client := client s @
                 [(\<lparr>http_method = GET, path = p @ ''messages?days=7'', payload = None\<rparr>, rs)]\<rparr>"
  have "get_messages_since E 7 s = (Inr (JList ms), ?s1)"
    using assms(1-4)
    by (simp add: get_messages_since_def str_int_7 api_call_def raise_for_status_def Let_def)
  then have "get_last_feeding E s = (Inr JNull, ?s1)"
    using first_feed_done_none [OF assms(5)] by (simp add: get_last_feeding_def)
  then show ?thesis
    by (simp add: repeat_feed_def)
qed

theorem repeat_feed_without_feed_done_witness:
  "repeat_feed (stand_in [\<lparr>status_code = 200, content = ''[]''\<rparr>]) \<lparr>data = feeder_doc, client = []\<rparr>
   = (Inl TypeError,
      \<lparr>data = feeder_doc,
       client = [(\<lparr>http_method = GET, path = ''smart-feed/feeders/f1/messages?days=7'',
                   payload = None\<rparr>,
                  \<lparr>status_code = 200, content = ''[]''\<rparr>)]\<rparr>)"
proof -
  let ?E = "stand_in [\<lparr>status_code = 200, content = ''[]''\<rparr>]"
  let ?s = "\<lparr>data = feeder_doc, client = []\<rparr>"
  let ?rs = "\<lparr>status_code = 200, content = ''[]''\<rparr>"
  have 1: "api_path ?s = Inr ''smart-feed/feeders/f1/''"
    by (simp add: api_path_def api_name_def feeder_doc_def)
  have 2: "?rs = server ?E (map fst (client ?s) @
             [\<lparr>http_method = GET, path = ''smart-feed/feeders/f1/'' @ ''messages?days=7'',
               payload = None\<rparr>])"
    by (simp add: stand_in_def scripted_def)
  have 3: "is_success ?rs"
    by (simp add: is_success_def)
  have 4: "json_loads ?E (content ?rs) = Inr (JList [])"
    by (simp add: stand_in_def decoder_def)
  have 5: "\<forall>m\<in>set []. \<exists>t. subscript m ''message_type'' = Inr t \<and> t \<noteq> JStr ''FEED_DONE''"
    by simp
  from repeat_feed_without_feed_done [OF 1 2 3 4 5] show ?thesis
    by simp
qed

section \<open>Rounding to a float\<close>

lemma pow2_powi: "pow2 e = power_int 2 e"
  by (simp add: pow2_def power_int_def power_one_over)

lemma pow2_pos: "0 < pow2 e"
  by (simp add: pow2_powi)

lemma round_half_even_close: "\<bar>of_int (round_half_even y) - y\<bar> \<le> 1 / 2"
proof -
  have "of_int \<lfloor>y\<rfloor> \<le> y" "y < of_int \<lfloor>y\<rfloor> + 1"
    by linarith+
  then show ?thesis
    by (auto simp: round_half_even_def Let_def)
qed

lemma pow2_ilog2_le:
  assumes "x \<noteq> 0"
  shows "pow2 (ilog2 x) \<le> \<bar>x\<bar>"
proof -
  obtain p q where pq: "quotient_of \<bar>x\<bar> = (p, q)"
    by (cases "quotient_of \<bar>x\<bar>")
  then have q: "0 < q" and x: "\<bar>x\<bar> = of_int p / of_int q"
    by (simp_all add: quotient_of_denom_pos quotient_of_div)
  from assms x have "0 < of_int p / (of_int q :: rat)"
    by (metis zero_less_abs_iff)
  with q have p: "0 < p"
    by (simp add: zero_less_divide_iff)
  let ?d = "bitlen p - bitlen q"
  show ?thesis
  proof (cases "pow2 ?d \<le> \<bar>x\<bar>")
    case True
    then show ?thesis by (simp add: ilog2_def pq)
  next
    case False
    then have i: "ilog2 x = ?d - 1"
      by (simp add: ilog2_def pq)
    from bitlen_bounds [OF p] have "2 ^ nat (bitlen p - 1) \<le> p" by simp
    then have 1: "(2::rat) ^ nat (bitlen p - 1) \<le> of_int p"
      by (metis of_int_le_iff of_int_numeral of_int_power)
    from bitlen_bounds [OF q] have "q < 2 ^ nat (bitlen q)" by simp
    then have 2: "of_int q \<le> (2::rat) ^ nat (bitlen q)"
      by (metis less_imp_le of_int_le_iff of_int_numeral of_int_power)
    have bp: "1 \<le> bitlen p"
      using p bitlen_eq_zero_iff [of p] bitlen_nonneg [of p] by linarith
    have e: "?d - 1 = (bitlen p - 1) - bitlen q"
      by simp
    have "pow2 (?d - 1) = power_int 2 (bitlen p - 1) / power_int 2 (bitlen q)"
      unfolding e pow2_powi by (rule power_int_diff) simp
    also have "\<dots> = 2 ^ nat (bitlen p - 1) / 2 ^ nat (bitlen q)"
      using bp bitlen_nonneg [of q] by (simp add: power_int_def)
    also have "\<dots> \<le> of_int p / of_int q"
      using 1 2 q p by (intro frac_le) simp_all
    finally show ?thesis
      using i x by simp
  qed
qed

lemma to_double_close:
  "\<bar>to_double x - x\<bar> \<le> pow2 (max (ilog2 x) (- 1022) - 52) / 2"
proof (cases "x = 0")
  case True
  then show ?thesis using pow2_pos [of "max (ilog2 x) (- 1022) - 52"] by (simp add: to_double_def)
next
  case False
  let ?st = "pow2 (max (ilog2 x) (- 1022) - 52)"
  have st: "0 < ?st" by (rule pow2_pos)
  have "to_double x - x = (of_int (round_half_even (x / ?st)) - x / ?st) * ?st"
    using False st by (simp add: to_double_def Let_def algebra_simps)
  then have "\<bar>to_double x - x\<bar> = \<bar>of_int (round_half_even (x / ?st)) - x / ?st\<bar> * ?st"
    using st by (simp add: abs_mult)
  also have "\<dots> \<le> 1 / 2 * ?st"
    using round_half_even_close [of "x / ?st"] st by (intro mult_right_mono) simp_all
  finally show ?thesis by simp
qed

lemma pow2_le_1: "e \<le> 0 \<Longrightarrow> pow2 e \<le> 1"
  by (cases "e = 0") (simp_all add: pow2_def divide_le_eq)

lemma ilog2_0: "ilog2 0 = - 2"
  by code_simp

lemma step_le:
  "pow2 (max (ilog2 x) (- 1022) - 52) \<le> max \<bar>x\<bar> 1"
proof (cases "ilog2 x \<le> - 1022 \<or> x = 0")
  case True
  then have "max (ilog2 x) (- 1022) - 52 \<le> 0"
    by (auto simp: ilog2_0)
  then have "pow2 (max (ilog2 x) (- 1022) - 52) \<le> 1"
    by (rule pow2_le_1)
  then show ?thesis by simp
next
  case False
  then have e: "max (ilog2 x) (- 1022) = ilog2 x" by simp
  have x0: "x \<noteq> 0"
    using False by simp
  have "pow2 (ilog2 x - 52) = pow2 (ilog2 x) / 2 ^ 52"
    by (simp add: pow2_powi power_int_diff)
  also have "\<dots> \<le> pow2 (ilog2 x)"
    using pow2_pos [of "ilog2 x"] by (simp add: field_simps)
  also have "\<dots> \<le> \<bar>x\<bar>" by (rule pow2_ilog2_le [OF x0])
  finally show ?thesis using e by simp
qed

lemma to_double_bound:
  assumes "\<bar>x\<bar> \<le> 2 ^ 1023"
  shows "\<bar>to_double x\<bar> < 2 ^ 1024"
proof -
  have "\<bar>to_double x\<bar> \<le> \<bar>x\<bar> + \<bar>to_double x - x\<bar>" by simp
  also have "\<dots> \<le> \<bar>x\<bar> + max \<bar>x\<bar> 1 / 2"
    using to_double_close [of x] step_le [of x] by simp
  also have "\<dots> < 2 ^ 1024"
    using assms by (simp add: max_def)
  finally show ?thesis .
qed

lemma to_double_abs_le: "\<bar>to_double x\<bar> \<le> \<bar>x\<bar> + max \<bar>x\<bar> 1 / 2"
proof -
  have "\<bar>to_double x\<bar> \<le> \<bar>x\<bar> + \<bar>to_double x - x\<bar>" by simp
  also have "\<dots> \<le> \<bar>x\<bar> + max \<bar>x\<bar> 1 / 2"
    using to_double_close [of x] step_le [of x] by simp
  finally show ?thesis .
qed

lemma int_truediv_in_range:
  assumes "\<bar>n\<bar> \<le> 2 ^ 1010" and "1 \<le> b"
  shows "int_truediv n b = Inr (to_double (of_int n / of_int b))"
    and "\<bar>to_double (of_int n / of_int b)\<bar> \<le> 2 ^ 1011"
proof -
  let ?q = "of_int n / of_int b :: rat"
  have "\<bar>?q\<bar> \<le> \<bar>of_int n\<bar>"
    using assms(2) by (simp add: divide_le_eq mult_le_cancel_left1)
  also have "\<dots> \<le> 2 ^ 1010"
    using assms(1) by (metis of_int_abs of_int_le_iff of_int_numeral of_int_power)
  finally have q: "\<bar>?q\<bar> \<le> 2 ^ 1010" .
  from to_double_abs_le [of ?q] q show b: "\<bar>to_double ?q\<bar> \<le> 2 ^ 1011"
    by (simp add: max_def split: if_splits)
  then show "int_truediv n b = Inr (to_double ?q)"
    by (simp add: int_truediv_def Let_def)
qed

lemma td72: "to_double (72 / 10) = 8106479329266893 / 2 ^ 50"
  by code_simp

lemma td72': "to_double (36 / 5) = 8106479329266893 / 2 ^ 50"
  using td72 by simp

lemma float_mul_in_range:
  assumes "\<bar>x\<bar> \<le> 2 ^ 1011"
  shows "float_mul x (to_double (72 / 10)) = Finite (to_double (x * to_double (72 / 10)))"
proof -
  have "\<bar>x * to_double (72 / 10)\<bar> = \<bar>x\<bar> * (8106479329266893 / 2 ^ 50)"
    by (simp add: td72' abs_mult)
  also have "\<dots> \<le> \<bar>x\<bar> * 8"
    by (intro mult_left_mono) simp_all
  also have "\<dots> \<le> 2 ^ 1023"
    using assms by simp
  finally have "\<bar>to_double (x * to_double (72 / 10))\<bar> < 2 ^ 1024"
    by (rule to_double_bound)
  then have "\<not> 2 ^ 1024 \<le> to_double (x * to_double (72 / 10))"
    and "\<not> to_double (x * to_double (72 / 10)) \<le> - (2 ^ 1024)"
    by (simp_all add: abs_less_iff not_le)
  then show ?thesis
    by (simp add: float_mul_def Let_def)
qed

section \<open>Battery level\<close>

lemma round_half_even_nonneg: "0 \<le> x \<Longrightarrow> 0 \<le> round_half_even x"
  by (auto simp: round_half_even_def Let_def)

lemma round_half_even_0: "round_half_even 0 = 0"
  by (simp add: round_half_even_def)

lemma round_half_even_max0:
  "round_half_even (max x 0) = (if 0 > x then 0 else round_half_even x)"
  by (simp add: max_def round_half_even_0)

lemma battery_level_installed:
  assumes "subscript (data s) ''is_batteries_installed'' = Inr b" and "truthy b"
    and "subscript (data s) ''battery_voltage'' = Inr raw" and "py_int raw = Inr n"
  shows "battery_level s =
           (case int_truediv (100 * (n - 22755)) (29100 - 22755) of Inl e \<Rightarrow> Inl e
            | Inr x \<Rightarrow> Inr (JInt (round_half_even (max x 0))))"
  using assms by (simp add: battery_level_def round_half_even_max0 split: sum.splits)

lemma battery_level_nonneg:
  assumes "battery_level s = Inr v"
  shows "\<exists>i. v = JInt i \<and> 0 \<le> i"
  using assms
  by (auto simp: battery_level_def Let_def round_half_even_nonneg split: sum.splits if_splits)

lemma battery_level_in_range:
  assumes "subscript (data s) ''is_batteries_installed'' = Inr b" and "truthy b"
    and "subscript (data s) ''battery_voltage'' = Inr raw" and "py_int raw = Inr n"
    and "\<bar>n\<bar> \<le> 10 ^ 300"
  shows "battery_level s =
           Inr (JInt (round_half_even
             (max (to_double (of_int (100 * (n - 22755)) / of_int (29100 - 22755))) 0)))"
proof -
  have "\<bar>100 * (n - 22755)\<bar> \<le> 100 * \<bar>n\<bar> + 2275500"
    by (simp add: abs_if)
  also have "\<dots> \<le> 100 * 10 ^ 300 + 2275500"
    using assms(5) by simp
  also have "\<dots> \<le> 2 ^ 1010"
    by simp
  finally have "\<bar>100 * (n - 22755)\<bar> \<le> 2 ^ 1010" .
  from int_truediv_in_range(1) [OF this, of "29100 - 22755"] battery_level_installed [OF assms(1-4)]
  show ?thesis by simp
qed

section \<open>Battery voltage\<close>

lemma battery_voltage_in_range:
  assumes "subscript (data s) ''battery_voltage'' = Inr raw" and "py_int raw = Inr n"
    and "\<bar>n\<bar> \<le> 10 ^ 300"
  shows "battery_voltage s =
           Inr (JFloat (Finite (to_double (of_int (round_half_even
             (to_double (to_double (of_int n / 32767) * to_double (72 / 10)) * 1000)) / 1000))))"
proof -
  have "(10::int) ^ 300 \<le> 2 ^ 1010"
    by simp
  with assms(3) have "\<bar>n\<bar> \<le> 2 ^ 1010"
    by (rule order_trans)
  from int_truediv_in_range [OF this, of 32767]
  have 1: "int_truediv n 32767 = Inr (to_double (of_int n / 32767))"
    and 2: "\<bar>to_double (of_int n / 32767)\<bar> \<le> 2 ^ 1011"
    by simp_all
  show ?thesis
    using assms(1,2) 1 float_mul_in_range [OF 2]
    by (simp add: battery_voltage_def battery_voltage_try_def)
qed

lemma battery_voltage_error:
  assumes "subscript (data s) ''battery_voltage'' = Inr raw" and "py_int raw = Inl e"
  shows "battery_voltage s = (if e = ValueError then Inr (JInt (- 1)) else Inl e)"
  using assms by (simp add: battery_voltage_def battery_voltage_try_def)

section \<open>The float result against exact arithmetic\<close>

text \<open>
  A float differs from the rational it was rounded from by at most \<open>2 ^ -53\<close> of its
  size. A quotient with an odd denominator \<open>b\<close> is never closer than \<open>1 / (2 * b)\<close> to a
  point half-way between two integers, so a float that close to it rounds to the same
  integer. Both divisors of the accessors, 6345 and 32767, are odd.
\<close>

lemma step_small:
  "pow2 (max (ilog2 x) (- 1022) - 52) \<le> max \<bar>x\<bar> 1 / 2 ^ 52"
proof (cases "ilog2 x \<le> - 1022 \<or> x = 0")
  case True
  then have "max (ilog2 x) (- 1022) - 52 + 52 \<le> 0"
    by (auto simp: ilog2_0)
  then have "pow2 (max (ilog2 x) (- 1022) - 52 + 52) \<le> 1"
    by (rule pow2_le_1)
  moreover have "pow2 (max (ilog2 x) (- 1022) - 52) = pow2 (max (ilog2 x) (- 1022) - 52 + 52) / 2 ^ 52"
    unfolding pow2_powi by (subst power_int_add) simp_all
  ultimately have "pow2 (max (ilog2 x) (- 1022) - 52) \<le> 1 / 2 ^ 52"
    by (simp add: divide_right_mono)
  also have "\<dots> \<le> max \<bar>x\<bar> 1 / 2 ^ 52"
    by (simp add: divide_right_mono)
  finally show ?thesis .
next
  case False
  then have e: "max (ilog2 x) (- 1022) = ilog2 x" and x0: "x \<noteq> 0" by simp_all
  have "pow2 (ilog2 x - 52) = pow2 (ilog2 x) / 2 ^ 52"
    by (simp add: pow2_powi power_int_diff)
  also have "\<dots> \<le> \<bar>x\<bar> / 2 ^ 52"
    using pow2_ilog2_le [OF x0] by (simp add: divide_right_mono)
  also have "\<dots> \<le> max \<bar>x\<bar> 1 / 2 ^ 52"
    by (simp add: divide_right_mono)
  finally show ?thesis using e by simp
qed

lemma to_double_error: "\<bar>to_double x - x\<bar> \<le> max \<bar>x\<bar> 1 / 2 ^ 53"
proof -
  have "\<bar>to_double x - x\<bar> \<le> (max \<bar>x\<bar> 1 / 2 ^ 52) / 2"
    using to_double_close [of x] step_small [of x] by simp
  then show ?thesis by simp
qed

lemma round_half_even_unique:
  assumes "of_int k < y + 1 / 2" and "y + 1 / 2 < of_int k + 1"
  shows "round_half_even y = k"
proof -
  have f: "\<lfloor>y\<rfloor> = k \<or> \<lfloor>y\<rfloor> = k - 1"
    using assms by linarith
  then show ?thesis
  proof
    assume "\<lfloor>y\<rfloor> = k"
    then show ?thesis using assms by (simp add: round_half_even_def Let_def)
  next
    assume a: "\<lfloor>y\<rfloor> = k - 1"
    then have "1 / 2 < y - of_int (k - 1)" using assms by simp
    then show ?thesis using a by (simp add: round_half_even_def Let_def)
  qed
qed

lemma half_margin:
  assumes "odd b" and "0 < b"
  shows "\<exists>k. of_int k + 1 / (2 * of_int b) \<le> (of_int a / of_int b + 1 / 2 :: rat) \<and>
             (of_int a / of_int b + 1 / 2 :: rat) \<le> of_int k + 1 - 1 / (2 * of_int b)"
proof -
  let ?q = "of_int a / of_int b + 1 / 2 :: rat"
  define k where "k = \<lfloor>?q\<rfloor>"
  define N where "N = 2 * a + b - 2 * b * k"
  define B :: rat where "B = of_int b"
  have b: "0 < B" using assms(2) by (simp add: B_def)
  have "of_int N = 2 * of_int a + B - 2 * B * of_int k"
    by (simp add: N_def B_def)
  then have "of_int N / (2 * B) = of_int a / B + 1 / 2 - of_int k"
    using b by (simp add: field_simps)
  then have N: "?q = of_int k + of_int N / (2 * B)"
    by (simp add: B_def)
  have "of_int k \<le> ?q" "?q < of_int k + 1"
    unfolding k_def by linarith+
  then have "0 \<le> of_int N / (2 * B)" "of_int N / (2 * B) < 1"
    unfolding N by simp_all
  then have "(0::rat) \<le> of_int N" "(of_int N :: rat) < 2 * B"
    using b by (simp_all add: zero_le_divide_iff)
  then have "0 \<le> N" "N < 2 * b"
    unfolding B_def by linarith+
  moreover have "odd N"
    using assms(1) by (simp add: N_def)
  ultimately have "1 \<le> N" "N \<le> 2 * b - 1"
    by presburger+
  then have "(1::rat) \<le> of_int N" "(of_int N :: rat) \<le> 2 * B - 1"
    unfolding B_def by linarith+
  then have "1 / (2 * B) \<le> of_int N / (2 * B)" "of_int N / (2 * B) \<le> 1 - 1 / (2 * B)"
    using b by (simp_all add: field_simps)
  then have "of_int k + 1 / (2 * of_int b) \<le> ?q \<and> ?q \<le> of_int k + 1 - 1 / (2 * of_int b)"
    unfolding N unfolding B_def by simp
  then show ?thesis ..
qed

lemma round_half_even_stable:
  assumes "odd b" and "0 < b" and "\<bar>x - of_int a / of_int b\<bar> < 1 / (2 * of_int b)"
  shows "round_half_even x = round_half_even (of_int a / of_int b)"
proof -
  from half_margin [OF assms(1,2), of a] obtain k
    where k: "of_int k + 1 / (2 * of_int b) \<le> (of_int a / of_int b + 1 / 2 :: rat)"
      "(of_int a / of_int b + 1 / 2 :: rat) \<le> of_int k + 1 - 1 / (2 * of_int b)"
    by blast
  have b: "(0::rat) < 1 / (2 * of_int b)" using assms(2) by simp
  have "round_half_even (of_int a / of_int b) = k"
    using k b by (intro round_half_even_unique) linarith+
  moreover have "round_half_even x = k"
    using k assms(3) by (intro round_half_even_unique) linarith+
  ultimately show ?thesis by simp
qed

lemma round_half_even_nonpos: "x \<le> 0 \<Longrightarrow> round_half_even x \<le> 0"
proof -
  assume x: "x \<le> 0"
  have "of_int \<lfloor>x\<rfloor> \<le> x" by linarith
  show ?thesis
  proof (cases "x = of_int \<lfloor>x\<rfloor>")
    case True
    then have "round_half_even x = \<lfloor>x\<rfloor>" by (simp add: round_half_even_def Let_def)
    then show ?thesis using x by (simp add: floor_le_zero)
  next
    case False
    then have "of_int \<lfloor>x\<rfloor> < x"
      by (metis of_int_floor_le order_le_less)
    then have "of_int \<lfloor>x\<rfloor> < (0::rat)" using x by linarith
    then have "\<lfloor>x\<rfloor> + 1 \<le> 0" by linarith
    then show ?thesis by (auto simp: round_half_even_def Let_def)
  qed
qed

lemma round_half_even_clamp:
  "round_half_even (max x 0) = max 0 (round_half_even x)"
proof (cases "0 > x")
  case True
  then show ?thesis
    using round_half_even_nonpos [of x] by (simp add: max_def round_half_even_0)
next
  case False
  then show ?thesis
    using round_half_even_nonneg [of x] by (simp add: max_def)
qed

lemma level_rounds_exactly:
  assumes "\<bar>n\<bar> \<le> 10 ^ 12"
  shows "round_half_even (to_double (of_int (100 * (n - 22755)) / of_int 6345))
         = round_half_even (of_int (100 * (n - 22755)) / of_int 6345)"
proof -
  let ?a = "100 * (n - 22755)"
  let ?q = "of_int ?a / of_int 6345 :: rat"
  have "\<bar>?a\<bar> \<le> 100 * \<bar>n\<bar> + 2275500"
    by (simp add: abs_if)
  also have "\<dots> \<le> 6345 * 2 ^ 34"
    using assms by simp
  finally have "\<bar>of_int ?a :: rat\<bar> \<le> of_int (6345 * 2 ^ 34)"
    by (metis of_int_abs of_int_le_iff)
  then have "\<bar>?q\<bar> \<le> 2 ^ 34"
    by (simp add: divide_le_eq)
  then have "max \<bar>?q\<bar> 1 / 2 ^ 53 \<le> 2 ^ 34 / 2 ^ 53"
    by (intro divide_right_mono) simp_all
  with to_double_error [of ?q] have "\<bar>to_double ?q - ?q\<bar> \<le> 2 ^ 34 / 2 ^ 53"
    by (rule order_trans)
  also have "\<dots> < 1 / (2 * of_int 6345)"
    by simp
  finally show ?thesis
    by (intro round_half_even_stable) simp_all
qed

lemma seven_point_two: "to_double (72 / 10) = 36 / 5 + 1 / (5 * 2 ^ 50)"
  using td72 by simp

lemma voltage_rounds_exactly:
  assumes "\<bar>n\<bar> \<le> 10 ^ 9"
  shows "round_half_even (to_double (to_double (of_int n / 32767) * to_double (72 / 10)) * 1000)
         = round_half_even (of_int (7200 * n) / of_int 32767)"
proof -
  define u :: rat where "u = of_int n / 32767"
  define v1 where "v1 = to_double u"
  define c where "c = to_double (72 / 10)"
  define v2 where "v2 = to_double (v1 * c)"
  have c: "c - 36 / 5 = 1 / (5 * 2 ^ 50)"
    unfolding c_def seven_point_two by simp
  then have c8: "0 \<le> c" "c \<le> 8" by simp_all
  have "\<bar>n\<bar> \<le> 32767 * 2 ^ 15"
    using assms by simp
  then have "\<bar>of_int n :: rat\<bar> \<le> of_int (32767 * 2 ^ 15)"
    by (metis of_int_abs of_int_le_iff)
  then have u: "\<bar>u\<bar> \<le> 2 ^ 15"
    by (simp add: u_def divide_le_eq)
  then have "max \<bar>u\<bar> 1 / 2 ^ 53 \<le> 2 ^ 15 / 2 ^ 53"
    by (intro divide_right_mono) simp_all
  with to_double_error [of u] have e1: "\<bar>v1 - u\<bar> \<le> 2 ^ 15 / 2 ^ 53"
    unfolding v1_def by (rule order_trans)
  have "\<bar>v1\<bar> \<le> \<bar>u\<bar> + \<bar>v1 - u\<bar>"
    by linarith
  also have "\<dots> \<le> 2 ^ 15 + 2 ^ 15 / 2 ^ 53"
    using u e1 by (rule add_mono)
  also have "\<dots> \<le> 2 ^ 15 + 1"
    by simp
  finally have v1: "\<bar>v1\<bar> \<le> 2 ^ 15 + 1" .
  have "\<bar>v1 * c\<bar> = \<bar>v1\<bar> * c"
    using c8 by (simp add: abs_mult)
  also have "\<dots> \<le> (2 ^ 15 + 1) * 8"
    using v1 c8 by (intro mult_mono) simp_all
  finally have "\<bar>v1 * c\<bar> \<le> (2 ^ 15 + 1) * 8" .
  then have "max \<bar>v1 * c\<bar> 1 / 2 ^ 53 \<le> ((2 ^ 15 + 1) * 8) / 2 ^ 53"
    by (intro divide_right_mono) simp_all
  with to_double_error [of "v1 * c"] have e2: "\<bar>v2 - v1 * c\<bar> \<le> ((2 ^ 15 + 1) * 8) / 2 ^ 53"
    unfolding v2_def by (rule order_trans)
  have "v1 * c - u * (36 / 5) = (v1 - u) * c + u * (c - 36 / 5)"
    by (simp add: algebra_simps)
  then have "\<bar>v1 * c - u * (36 / 5)\<bar> \<le> \<bar>(v1 - u) * c\<bar> + \<bar>u * (c - 36 / 5)\<bar>"
    by (simp only: abs_triangle_ineq)
  also have "\<dots> = \<bar>v1 - u\<bar> * c + \<bar>u\<bar> * (1 / (5 * 2 ^ 50))"
    using c8 unfolding c by (simp add: abs_mult)
  also have "\<dots> \<le> 2 ^ 15 / 2 ^ 53 * 8 + 2 ^ 15 * (1 / (5 * 2 ^ 50))"
    using e1 u c8 by (intro add_mono mult_mono) simp_all
  finally have e3: "\<bar>v1 * c - u * (36 / 5)\<bar> \<le> 2 ^ 15 / 2 ^ 53 * 8 + 2 ^ 15 * (1 / (5 * 2 ^ 50))" .
  have "\<bar>v2 - u * (36 / 5)\<bar> \<le> \<bar>v2 - v1 * c\<bar> + \<bar>v1 * c - u * (36 / 5)\<bar>"
    by linarith
  also have "\<dots> \<le> ((2 ^ 15 + 1) * 8) / 2 ^ 53 + (2 ^ 15 / 2 ^ 53 * 8 + 2 ^ 15 * (1 / (5 * 2 ^ 50)))"
    using e2 e3 by (rule add_mono)
  finally have e4: "\<bar>v2 - u * (36 / 5)\<bar>
      \<le> ((2 ^ 15 + 1) * 8) / 2 ^ 53 + (2 ^ 15 / 2 ^ 53 * 8 + 2 ^ 15 * (1 / (5 * 2 ^ 50)))" .
  have "v2 * 1000 - of_int (7200 * n) / of_int 32767 = (v2 - u * (36 / 5)) * 1000"
    by (simp add: u_def algebra_simps)
  then have "\<bar>v2 * 1000 - of_int (7200 * n) / of_int 32767\<bar> = \<bar>v2 - u * (36 / 5)\<bar> * 1000"
    by (simp only: abs_mult)
  also have "\<dots> \<le> (((2 ^ 15 + 1) * 8) / 2 ^ 53 + (2 ^ 15 / 2 ^ 53 * 8 + 2 ^ 15 * (1 / (5 * 2 ^ 50)))) * 1000"
    using e4 by (intro mult_right_mono) simp_all
  also have "\<dots> < 1 / (2 * of_int 32767)"
    by simp
  finally have "round_half_even (v2 * 1000) = round_half_even (of_int (7200 * n) / of_int 32767)"
    by (intro round_half_even_stable) simp_all
  then show ?thesis
    by (simp only: v2_def v1_def c_def u_def)
qed

lemma py_int_ValueError:
  "py_int raw = Inl ValueError \<longleftrightarrow>
     raw = JFloat NaN \<or> (\<exists>cs. raw = JStr cs \<and> int_of_str cs = None)"
  by (cases raw rule: py_int.cases) (auto split: option.splits)

lemma py_int_TypeError:
  "py_int raw = Inl TypeError \<longleftrightarrow>
     raw = JNull \<or> (\<exists>xs. raw = JList xs) \<or> (\<exists>kvs. raw = JObj kvs)"
  by (cases raw rule: py_int.cases) (auto split: option.splits)

lemma level_at_full:
  "round_half_even (max (of_int (100 * (29100 - 22755)) / of_int (29100 - 22755)) 0) = 100"
  by code_simp

lemma level_at_empty:
  "round_half_even (max (of_int (100 * (22755 - 22755)) / of_int (29100 - 22755)) 0) = 0"
  by code_simp

lemma level_at_top:
  "round_half_even (max (of_int (100 * (32767 - 22755)) / of_int (29100 - 22755)) 0) = 158"
  by code_simp

lemma voltage_at_full_scale:
  "to_double (of_int (round_half_even (of_int (7200 * 32767) / of_int 32767)) / 1000)
   = to_double (72 / 10)"
  by code_simp


section \<open>The claims about the battery\<close>

text \<open>
  C5. \<open>battery_level\<close> returns 0 whenever \<open>is_batteries_installed\<close> is false (or any
  other value that counts as false), whatever is stored as voltage. With batteries
  installed and a raw voltage that \<open>int()\<close> converts to \<open>n\<close>, it returns
  \<open>round(max(100 * (n - 22755) / (29100 - 22755), 0))\<close>: as the interpreter computes it in
  floats for every \<open>n\<close> up to \<open>10 ^ 300\<close> in size, and that is the same integer as in
  exact arithmetic for every \<open>n\<close> up to \<open>10 ^ 12\<close>. So 29100 gives 100 and 22755 gives 0.
  The result is never below 0, and it is not capped at 100: 32767 gives 158.
\<close>

theorem battery_level_formula:
  "(subscript (data s) ''is_batteries_installed'' = Inr b \<and> \<not> truthy b \<longrightarrow>
      battery_level s = Inr (JInt 0)) \<and>
   (subscript (data s) ''is_batteries_installed'' = Inr b \<and> truthy b \<and>
    subscript (data s) ''battery_voltage'' = Inr raw \<and> py_int raw = Inr n \<and> \<bar>n\<bar> \<le> 10 ^ 300 \<longrightarrow>
      battery_level s =
        Inr (JInt (round_half_even
          (max (to_double (of_int (100 * (n - 22755)) / of_int (29100 - 22755))) 0)))) \<and>
   (subscript (data s) ''is_batteries_installed'' = Inr b \<and> truthy b \<and>
    subscript (data s) ''battery_voltage'' = Inr raw \<and> py_int raw = Inr n \<and> \<bar>n\<bar> \<le> 10 ^ 12 \<longrightarrow>
      battery_level s =
        Inr (JInt (round_half_even (max (of_int (100 * (n - 22755)) / of_int (29100 - 22755)) 0))) \<and>
      (n = 29100 \<longrightarrow> battery_level s = Inr (JInt 100)) \<and>
      (n = 22755 \<longrightarrow> battery_level s = Inr (JInt 0)) \<and>
      (n = 32767 \<longrightarrow> battery_level s = Inr (JInt 158))) \<and>
   (battery_level s = Inr v \<longrightarrow> (\<exists>i. v = JInt i \<and> 0 \<le> i))"
proof -
  have off: "battery_level s = Inr (JInt 0)"
    if "subscript (data s) ''is_batteries_installed'' = Inr b \<and> \<not> truthy b"
    using that by (simp add: battery_level_def)
  have float: "battery_level s =
        Inr (JInt (round_half_even
          (max (to_double (of_int (100 * (n - 22755)) / of_int (29100 - 22755))) 0)))"
    if "subscript (data s) ''is_batteries_installed'' = Inr b \<and> truthy b \<and>
        subscript (data s) ''battery_voltage'' = Inr raw \<and> py_int raw = Inr n \<and> \<bar>n\<bar> \<le> 10 ^ 300"
    using that battery_level_in_range by blast
  have exact: "battery_level s =
        Inr (JInt (round_half_even (max (of_int (100 * (n - 22755)) / of_int (29100 - 22755)) 0)))"
    if a: "subscript (data s) ''is_batteries_installed'' = Inr b \<and> truthy b \<and>
        subscript (data s) ''battery_voltage'' = Inr raw \<and> py_int raw = Inr n \<and> \<bar>n\<bar> \<le> 10 ^ 12"
  proof -
    from a have "\<bar>n\<bar> \<le> 10 ^ 300"
      by simp
    with a have "battery_level s =
        Inr (JInt (round_half_even
          (max (to_double (of_int (100 * (n - 22755)) / of_int (29100 - 22755))) 0)))"
      using battery_level_in_range by blast
    moreover have "round_half_even (to_double (of_int (100 * (n - 22755)) / of_int 6345))
         = round_half_even (of_int (100 * (n - 22755)) / of_int 6345)"
      using a by (intro level_rounds_exactly) simp
    ultimately show ?thesis
      by (simp add: round_half_even_clamp)
  qed
  have full: "n = 29100 \<longrightarrow> battery_level s = Inr (JInt 100)"
    if h: "subscript (data s) ''is_batteries_installed'' = Inr b \<and> truthy b \<and>
        subscript (data s) ''battery_voltage'' = Inr raw \<and> py_int raw = Inr n \<and> \<bar>n\<bar> \<le> 10 ^ 12"
  proof (rule impI)
    assume n: "n = 29100"
    from exact [OF h] show "battery_level s = Inr (JInt 100)"
      unfolding n level_at_full .
  qed
  have empty: "n = 22755 \<longrightarrow> battery_level s = Inr (JInt 0)"
    if h: "subscript (data s) ''is_batteries_installed'' = Inr b \<and> truthy b \<and>
        subscript (data s) ''battery_voltage'' = Inr raw \<and> py_int raw = Inr n \<and> \<bar>n\<bar> \<le> 10 ^ 12"
  proof (rule impI)
    assume n: "n = 22755"
    from exact [OF h] show "battery_level s = Inr (JInt 0)"
      unfolding n level_at_empty .
  qed
  have top: "n = 32767 \<longrightarrow> battery_level s = Inr (JInt 158)"
    if h: "subscript (data s) ''is_batteries_installed'' = Inr b \<and> truthy b \<and>
        subscript (data s) ''battery_voltage'' = Inr raw \<and> py_int raw = Inr n \<and> \<bar>n\<bar> \<le> 10 ^ 12"
  proof (rule impI)
    assume n: "n = 32767"
    from exact [OF h] show "battery_level s = Inr (JInt 158)"
      unfolding n level_at_top .
  qed
  have low: "\<exists>i. v = JInt i \<and> 0 \<le> i" if "battery_level s = Inr v"
    using that by (rule battery_level_nonneg)
  show ?thesis
    using off float exact full empty top low by blast
qed


text \<open>
  The theorem at work: no batteries and an unreadable voltage; the stored string "29100";
  the lower end of the scale; a reading above it; a reading far below it.
\<close>

theorem battery_level_formula_witness:
  "battery_level \<lparr>data = JObj [(''is_batteries_installed'', JBool False),
                              (''battery_voltage'', JStr ''no reading'')], client = []\<rparr>
     = Inr (JInt 0) \<and>
   battery_level \<lparr>data = feeder_doc, client = []\<rparr> = Inr (JInt 100) \<and>
   battery_level \<lparr>data = JObj [(''is_batteries_installed'', JBool True),
                              (''battery_voltage'', JInt 22755)], client = []\<rparr>
     = Inr (JInt 0) \<and>
   battery_level \<lparr>data = JObj [(''is_batteries_installed'', JBool True),
                              (''battery_voltage'', JInt 32767)], client = []\<rparr>
     = Inr (JInt 158) \<and>
   battery_level \<lparr>data = JObj [(''is_batteries_installed'', JBool True),
                              (''battery_voltage'', JInt 0)], client = []\<rparr>
     = Inr (JInt 0)"
proof -
  let ?off = "\<lparr>data = JObj [(''is_batteries_installed'', JBool False),
                          (''battery_voltage'', JStr ''no reading'')], client = []\<rparr>"
  let ?full = "\<lparr>data = feeder_doc, client = []\<rparr>"
  let ?empty = "\<lparr>data = JObj [(''is_batteries_installed'', JBool True),
                            (''battery_voltage'', JInt 22755)], client = []\<rparr>"
  let ?top = "\<lparr>data = JObj [(''is_batteries_installed'', JBool True),
                          (''battery_voltage'', JInt 32767)], client = []\<rparr>"
  let ?flat = "\<lparr>data = JObj [(''is_batteries_installed'', JBool True),
                           (''battery_voltage'', JInt 0)], client = []\<rparr>"
  have "subscript (data ?off) ''is_batteries_installed'' = Inr (JBool False) \<and>
        \<not> truthy (JBool False)"
    by simp
  with battery_level_formula [of ?off "JBool False"]
  have 1: "battery_level ?off = Inr (JInt 0)"
    by blast
  have p: "py_int (JStr ''29100'') = Inr 29100"
    by code_simp
  have "subscript (data ?full) ''is_batteries_installed'' = Inr (JBool True) \<and> truthy (JBool True) \<and>
        subscript (data ?full) ''battery_voltage'' = Inr (JStr ''29100'') \<and>
        py_int (JStr ''29100'') = Inr 29100 \<and> \<bar>29100\<bar> \<le> (10::int) ^ 12"
    using p by (simp add: feeder_doc_def)
  with battery_level_formula [of ?full "JBool True" "JStr ''29100''" 29100]
  have 2: "battery_level ?full = Inr (JInt 100)"
    by blast
  have "subscript (data ?empty) ''is_batteries_installed'' = Inr (JBool True) \<and> truthy (JBool True) \<and>
        subscript (data ?empty) ''battery_voltage'' = Inr (JInt 22755) \<and>
        py_int (JInt 22755) = Inr 22755 \<and> \<bar>22755\<bar> \<le> (10::int) ^ 12"
    by simp
  with battery_level_formula [of ?empty "JBool True" "JInt 22755" 22755]
  have 3: "battery_level ?empty = Inr (JInt 0)"
    by blast
  have "subscript (data ?top) ''is_batteries_installed'' = Inr (JBool True) \<and> truthy (JBool True) \<and>
        subscript (data ?top) ''battery_voltage'' = Inr (JInt 32767) \<and>
        py_int (JInt 32767) = Inr 32767 \<and> \<bar>32767\<bar> \<le> (10::int) ^ 12"
    by simp
  with battery_level_formula [of ?top "JBool True" "JInt 32767" 32767]
  have 4: "battery_level ?top = Inr (JInt 158)"
    by blast
  have z: "round_half_even (max (of_int (100 * (0 - 22755)) / of_int (29100 - 22755)) 0) = 0"
    by code_simp
  have "subscript (data ?flat) ''is_batteries_installed'' = Inr (JBool True) \<and> truthy (JBool True) \<and>
        subscript (data ?flat) ''battery_voltage'' = Inr (JInt 0) \<and>
        py_int (JInt 0) = Inr 0 \<and> \<bar>0\<bar> \<le> (10::int) ^ 12"
    by simp
  with battery_level_formula [of ?flat "JBool True" "JInt 0" 0]
  have "battery_level ?flat =
          Inr (JInt (round_half_even (max (of_int (100 * (0 - 22755)) / of_int (29100 - 22755)) 0)))"
    by blast
  then have 5: "battery_level ?flat = Inr (JInt 0)"
    unfolding z .
  from 1 2 3 4 5 show ?thesis
    by (intro conjI)
qed

text \<open>
  C6, as the claim has it, fails: a raw voltage that is no number at all, \<open>None\<close>, is
  not turned into \<open>-1\<close>. \<open>int(None)\<close> raises a TypeError and the accessor catches only
  ValueError.
\<close>

theorem battery_voltage_none_counterexample:
  "py_int JNull = Inl TypeError \<and>
   battery_voltage \<lparr>data = JObj [(''battery_voltage'', JNull)], client = []\<rparr> = Inl TypeError \<and>
   battery_voltage \<lparr>data = JObj [(''battery_voltage'', JNull)], client = []\<rparr> \<noteq> Inr (JInt (- 1))"
  by (simp add: battery_voltage_def battery_voltage_try_def)

text \<open>
  C6, amended. When \<open>int()\<close> converts the raw voltage to \<open>n\<close>, \<open>battery_voltage\<close> returns
  \<open>round(n / 32767 * 7.2, 3)\<close>: as the interpreter computes it in floats for every \<open>n\<close> up
  to \<open>10 ^ 300\<close> in size, and for every \<open>n\<close> up to \<open>10 ^ 9\<close> that is the float nearest to
  the exact \<open>7.2 * n / 32767\<close> rounded to three places; 32767 gives the float 7.2. When
  \<open>int()\<close> raises a ValueError (a str that is no decimal numeral, or a NaN) it returns
  \<open>-1\<close>. When \<open>int()\<close> raises a TypeError (\<open>None\<close>, a list, a dict) the accessor raises
  it too.
\<close>

theorem battery_voltage_cases:
  "(subscript (data s) ''battery_voltage'' = Inr raw \<and> py_int raw = Inr n \<and> \<bar>n\<bar> \<le> 10 ^ 300 \<longrightarrow>
      battery_voltage s =
        Inr (JFloat (round_3 (float_mul (to_double (of_int n / 32767)) (to_double (72 / 10)))))) \<and>
   (subscript (data s) ''battery_voltage'' = Inr raw \<and> py_int raw = Inr n \<and> \<bar>n\<bar> \<le> 10 ^ 9 \<longrightarrow>
      battery_voltage s =
        Inr (JFloat (Finite (to_double
          (of_int (round_half_even (of_int (7200 * n) / of_int 32767)) / 1000)))) \<and>
      (n = 32767 \<longrightarrow> battery_voltage s = Inr (JFloat (Finite (to_double (72 / 10)))))) \<and>
   (subscript (data s) ''battery_voltage'' = Inr raw \<and> py_int raw = Inl ValueError \<longrightarrow>
      battery_voltage s = Inr (JInt (- 1))) \<and>
   (subscript (data s) ''battery_voltage'' = Inr raw \<and> py_int raw = Inl TypeError \<longrightarrow>
      battery_voltage s = Inl TypeError)"
proof -
  have float: "battery_voltage s =
        Inr (JFloat (round_3 (float_mul (to_double (of_int n / 32767)) (to_double (72 / 10)))))"
    if a: "subscript (data s) ''battery_voltage'' = Inr raw \<and> py_int raw = Inr n \<and> \<bar>n\<bar> \<le> 10 ^ 300"
  proof -
    have "(10::int) ^ 300 \<le> 2 ^ 1010"
      by simp
    with a have "\<bar>n\<bar> \<le> 2 ^ 1010"
      by linarith
    from int_truediv_in_range [OF this, of 32767]
    have "int_truediv n 32767 = Inr (to_double (of_int n / 32767))"
      by simp
    with a show ?thesis
      by (simp add: battery_voltage_def battery_voltage_try_def)
  qed
  have exact: "battery_voltage s =
        Inr (JFloat (Finite (to_double
          (of_int (round_half_even (of_int (7200 * n) / of_int 32767)) / 1000))))"
    if a: "subscript (data s) ''battery_voltage'' = Inr raw \<and> py_int raw = Inr n \<and> \<bar>n\<bar> \<le> 10 ^ 9"
  proof -
    from a have "\<bar>n\<bar> \<le> 10 ^ 300"
      by simp
    with a have "battery_voltage s =
           Inr (JFloat (Finite (to_double (of_int (round_half_even
             (to_double (to_double (of_int n / 32767) * to_double (72 / 10)) * 1000)) / 1000))))"
      using battery_voltage_in_range by blast
    moreover have "round_half_even (to_double (to_double (of_int n / 32767) * to_double (72 / 10)) * 1000)
         = round_half_even (of_int (7200 * n) / of_int 32767)"
      using a by (intro voltage_rounds_exactly) simp
    ultimately show ?thesis
      by (simp only:)
  qed
  have full: "n = 32767 \<longrightarrow> battery_voltage s = Inr (JFloat (Finite (to_double (72 / 10))))"
    if h: "subscript (data s) ''battery_voltage'' = Inr raw \<and> py_int raw = Inr n \<and> \<bar>n\<bar> \<le> 10 ^ 9"
  proof (rule impI)
    assume n: "n = 32767"
    from exact [OF h] show "battery_voltage s = Inr (JFloat (Finite (to_double (72 / 10))))"
      unfolding n voltage_at_full_scale .
  qed
  have sentinel: "battery_voltage s = Inr (JInt (- 1))"
    if "subscript (data s) ''battery_voltage'' = Inr raw \<and> py_int raw = Inl ValueError"
    using that battery_voltage_error by simp
  have raised: "battery_voltage s = Inl TypeError"
    if "subscript (data s) ''battery_voltage'' = Inr raw \<and> py_int raw = Inl TypeError"
    using that battery_voltage_error by simp
  show ?thesis
    using float exact full sentinel raised by blast
qed

text \<open>
  The theorem at work: the full-scale reading as a string, a string that is no numeral,
  and a list.
\<close>

theorem battery_voltage_cases_witness:
  "battery_voltage \<lparr>data = JObj [(''battery_voltage'', JStr ''32767'')], client = []\<rparr>
     = Inr (JFloat (Finite (to_double (72 / 10)))) \<and>
   to_double (72 / 10) = 8106479329266893 / 2 ^ 50 \<and>
   battery_voltage \<lparr>data = JObj [(''battery_voltage'', JStr ''n/a'')], client = []\<rparr>
     = Inr (JInt (- 1)) \<and>
   battery_voltage \<lparr>data = JObj [(''battery_voltage'', JList [])], client = []\<rparr>
     = Inl TypeError"
proof -
  let ?full = "\<lparr>data = JObj [(''battery_voltage'', JStr ''32767'')], client = []\<rparr>"
  let ?text = "\<lparr>data = JObj [(''battery_voltage'', JStr ''n/a'')], client = []\<rparr>"
  let ?list = "\<lparr>data = JObj [(''battery_voltage'', JList [])], client = []\<rparr>"
  have p: "py_int (JStr ''32767'') = Inr 32767"
    by code_simp
  have q: "py_int (JStr ''n/a'') = Inl ValueError"
    by code_simp
  have "subscript (data ?full) ''battery_voltage'' = Inr (JStr ''32767'') \<and>
        py_int (JStr ''32767'') = Inr 32767 \<and> \<bar>32767\<bar> \<le> (10::int) ^ 9"
    using p by simp
  with battery_voltage_cases [of ?full "JStr ''32767''" 32767]
  have 1: "battery_voltage ?full = Inr (JFloat (Finite (to_double (72 / 10))))"
    by blast
  have "subscript (data ?text) ''battery_voltage'' = Inr (JStr ''n/a'') \<and>
        py_int (JStr ''n/a'') = Inl ValueError"
    using q by simp
  with battery_voltage_cases [of ?text "JStr ''n/a''"]
  have 2: "battery_voltage ?text = Inr (JInt (- 1))"
    by blast
  have "subscript (data ?list) ''battery_voltage'' = Inr (JList []) \<and>
        py_int (JList []) = Inl TypeError"
    by simp
  with battery_voltage_cases [of ?list "JList []"]
  have 3: "battery_voltage ?list = Inl TypeError"
    by blast
  from 1 td72 2 3 show ?thesis
    by (intro conjI)
qed

end
